theory Spec2Isabelle
  imports Complex_Main
begin

section \<open>ProjectContour: a shallow embedding of the terrain and route pipeline\<close>

text \<open>
  Python floats are modelled as HOL reals (rounding, NaN and infinities are outside the
  model), Python integers as \<open>int\<close> or \<open>nat\<close>, one-dimensional numpy arrays as lists,
  two-dimensional numpy arrays as lists of rows, and every exception the source can raise as
  a value of type \<open>exn\<close> on the left of a sum.
\<close>

subsection \<open>Common Python and numpy operations\<close>

datatype exn = ValueError | IndexError | TypeError | ZeroDivisionError

type_synonym grid = "real list list"

type_synonym vec3 = "real \<times> real \<times> real"

text \<open>\<open>arr.shape\<close> of a two-dimensional array stored as a list of rows.\<close>

definition nrows :: "'a list list \<Rightarrow> nat" where
  "nrows g = length g"

definition ncols :: "'a list list \<Rightarrow> nat" where
  "ncols g = (case g of [] \<Rightarrow> 0 | r # _ \<Rightarrow> length r)"

text \<open>A two-dimensional array of shape \<open>(h, w)\<close>: every row has \<open>w\<close> entries.\<close>

definition has_shape :: "'a list list \<Rightarrow> nat \<Rightarrow> nat \<Rightarrow> bool" where
  "has_shape g h w = (length g = h \<and> list_all (\<lambda>r. length r = w) g)"

text \<open>\<open>arr[i, j]\<close> for non-negative indices; numpy raises IndexError out of range.\<close>

definition get2 :: "'a list list \<Rightarrow> nat \<Rightarrow> nat \<Rightarrow> exn + 'a" where
  "get2 g i j = (if i < nrows g \<and> j < ncols g \<and> j < length (g ! i)
                 then Inr (g ! i ! j) else Inl IndexError)"

text \<open>\<open>arr.ravel()\<close>: the rows one after the other.\<close>

definition ravel :: "'a list list \<Rightarrow> 'a list" where
  "ravel g = concat g"

text \<open>\<open>min(xs)\<close> and \<open>max(xs)\<close>, \<open>arr.min()\<close> and \<open>arr.max()\<close>: ValueError on an empty
  sequence.\<close>

definition py_min :: "'a::linorder list \<Rightarrow> exn + 'a" where
  "py_min xs = (case xs of [] \<Rightarrow> Inl ValueError | a # as \<Rightarrow> Inr (fold min as a))"

definition py_max :: "'a::linorder list \<Rightarrow> exn + 'a" where
  "py_max xs = (case xs of [] \<Rightarrow> Inl ValueError | a # as \<Rightarrow> Inr (fold max as a))"

text \<open>The slice \<open>xs[::step]\<close> for a positive step: the entries at 0, step, 2 step, ...\<close>

fun slice_step :: "nat \<Rightarrow> 'a list \<Rightarrow> 'a list" where
  "slice_step step [] = []"
| "slice_step step (a # as) = a # slice_step step (drop (step - 1) as)"

text \<open>The slice \<open>arr[::step, ::step]\<close> of a two-dimensional array.\<close>

definition slice_step2 :: "nat \<Rightarrow> 'a list list \<Rightarrow> 'a list list" where
  "slice_step2 step g = map (slice_step step) (slice_step step g)"

text \<open>\<open>int(r)\<close> on a float: truncation towards zero.\<close>

definition py_int :: "real \<Rightarrow> int" where
  "py_int r = (if 0 \<le> r then \<lfloor>r\<rfloor> else \<lceil>r\<rceil>)"

definition radians :: "real \<Rightarrow> real" where
  "radians d = d * pi / 180"

definition degrees :: "real \<Rightarrow> real" where
  "degrees r = r * 180 / pi"

text \<open>Sequencing of computations that may raise.\<close>

definition bind_exn :: "exn + 'a \<Rightarrow> ('a \<Rightarrow> exn + 'b) \<Rightarrow> exn + 'b" where
  "bind_exn m f = (case m of Inl e \<Rightarrow> Inl e | Inr v \<Rightarrow> f v)"

subsection \<open>coordinate_transform.py\<close>

text \<open>The class \<open>RasterTile\<close>; its fields \<open>x\<close> and \<open>y\<close> are named \<open>tile_x\<close> and \<open>tile_y\<close>
  here. Zoom levels are the non-negative exponents of \<open>2**zoom\<close>.\<close>

datatype RasterTile = RasterTile (zoom: nat) (tile_x: int) (tile_y: int)

text \<open>
  \<open>LonLatToRasterTile.lonlat_to_tile\<close>. Read over the reals, the row formula is exact where
  the code's doubles are not: at a latitude that is the edge of a tile row the code's value
  can fall on either side of the integer, and at latitude 90 or -90 the code has a large
  finite tangent where \<open>tan\<close> is 0 here. Nothing below is drawn from the row of such a
  latitude. The column formula multiplies by a power of two and is exact in both.
\<close>

definition lonlat_to_tile :: "real \<Rightarrow> real \<Rightarrow> nat \<Rightarrow> RasterTile" where
  "lonlat_to_tile lon lat z =
     (let n = (2::real) ^ z;
          x_tile = py_int ((lon + 180) / 360 * n);
          lat_rad = radians lat;
          y_tile = py_int ((1 - arsinh (tan lat_rad) / pi) / 2 * n)
      in RasterTile z x_tile y_tile)"

text \<open>The class \<open>LonLatToENU\<close>: the fixed origin of the local tangent plane.\<close>

record LonLatToENU =
  lat0 :: real
  lon0 :: real
  h0 :: real

text \<open>
  \<open>lonlat_to_enu\<close> calls \<open>pymap3d.geodetic2enu\<close>, a function of an external library on
  the WGS84 ellipsoid: both positions are taken to earth-centred coordinates, and their
  difference is rotated into the tangent plane at the origin. Angles are in degrees.
\<close>

definition wgs84_a :: real where
  "wgs84_a = 6378137"

definition wgs84_b :: real where
  "wgs84_b = 6356752.31424518"

definition geodetic2ecef :: "real \<Rightarrow> real \<Rightarrow> real \<Rightarrow> vec3" where
  "geodetic2ecef lat lon alt =
     (let la = radians lat; lo = radians lon;
          N = wgs84_a ^ 2 / sqrt ((wgs84_a * cos la) ^ 2 + (wgs84_b * sin la) ^ 2)
      in ((N + alt) * cos la * cos lo,
          (N + alt) * cos la * sin lo,
          (N * (wgs84_b / wgs84_a) ^ 2 + alt) * sin la))"

definition uvw2enu :: "real \<Rightarrow> real \<Rightarrow> real \<Rightarrow> real \<Rightarrow> real \<Rightarrow> vec3" where
  "uvw2enu u v w lat_0 lon_0 =
     (let la = radians lat_0; lo = radians lon_0;
          t = cos lo * u + sin lo * v;
          East = - sin lo * u + cos lo * v;
          Up = cos la * t + sin la * w;
          North = - sin la * t + cos la * w
      in (East, North, Up))"

definition geodetic2enu :: "real \<Rightarrow> real \<Rightarrow> real \<Rightarrow> real \<Rightarrow> real \<Rightarrow> real \<Rightarrow> vec3" where
  "geodetic2enu lat lon h lat_0 lon_0 h_0 =
     (case geodetic2ecef lat lon h of (x1, y1, z1) \<Rightarrow>
      case geodetic2ecef lat_0 lon_0 h_0 of (x2, y2, z2) \<Rightarrow>
        uvw2enu (x1 - x2) (y1 - y2) (z1 - z2) lat_0 lon_0)"

text \<open>The ENU projection of one position about the origin of \<open>LonLatToENU\<close>.\<close>

definition lonlat_to_enu :: "LonLatToENU \<Rightarrow> real \<Rightarrow> real \<Rightarrow> real \<Rightarrow> vec3" where
  "lonlat_to_enu tr lat lon ele = geodetic2enu lat lon ele (lat0 tr) (lon0 tr) (h0 tr)"

subsection \<open>parameters.py and route.py\<close>

record GlobalParameters =
  SIZE_MM :: real
  PRINT_RESOLUTION_MM :: real
  EARTH_CIRCUMFERENCE_M :: real
  M_PER_DEG_LAT :: real

record ModelResolution =
  meters :: real

record BBox_LL =
  min_longitude :: real
  min_latitude :: real
  max_longitude :: real
  max_latitude :: real

definition central_latitude :: "BBox_LL \<Rightarrow> real" where
  "central_latitude b = (min_latitude b + max_latitude b) / 2"

text \<open>\<open>BBox_LL.tiles_to_cover\<close>: \<open>range(lo, hi + 1)\<close> is the list \<open>[lo..hi]\<close>.\<close>

definition tiles_to_cover :: "BBox_LL \<Rightarrow> nat \<Rightarrow> RasterTile list" where
  "tiles_to_cover b z =
     (let min_tile = lonlat_to_tile (min_longitude b) (min_latitude b) z;
          max_tile = lonlat_to_tile (max_longitude b) (max_latitude b) z;
          min_x = min (tile_x min_tile) (tile_x max_tile);
          max_x = max (tile_x min_tile) (tile_x max_tile);
          min_y = min (tile_y min_tile) (tile_y max_tile);
          max_y = max (tile_y min_tile) (tile_y max_tile)
      in concat (map (\<lambda>x. map (\<lambda>y. RasterTile z x y) [min_y..max_y]) [min_x..max_x]))"

text \<open>The body of the loop of \<open>ZoomLevel._compute_auto_zoom\<close>, quantities of one zoom.\<close>

definition meters_per_pixel :: "BBox_LL \<Rightarrow> GlobalParameters \<Rightarrow> nat \<Rightarrow> real" where
  "meters_per_pixel bbox params z =
     (EARTH_CIRCUMFERENCE_M params * cos (radians (central_latitude bbox))) / (256 * 2 ^ z)"

definition num_tiles :: "BBox_LL \<Rightarrow> nat \<Rightarrow> int" where
  "num_tiles bbox z = int (length (tiles_to_cover bbox z))"

text \<open>The loop \<open>for zoom in range(1, 16)\<close> over the zooms still to visit, carrying
  \<open>optimum_zoom\<close>; the first branch is the \<open>break\<close>.\<close>

fun auto_zoom_loop ::
  "BBox_LL \<Rightarrow> GlobalParameters \<Rightarrow> ModelResolution \<Rightarrow> int \<Rightarrow> nat list \<Rightarrow> nat \<Rightarrow> nat" where
  "auto_zoom_loop bbox params model_res max_tiles [] optimum_zoom = optimum_zoom"
| "auto_zoom_loop bbox params model_res max_tiles (z # zs) optimum_zoom =
     (if num_tiles bbox z > max_tiles then optimum_zoom
      else if meters_per_pixel bbox params z \<le> meters model_res \<and> num_tiles bbox z \<le> max_tiles
      then auto_zoom_loop bbox params model_res max_tiles zs z
      else auto_zoom_loop bbox params model_res max_tiles zs optimum_zoom)"

text \<open>\<open>ZoomLevel._compute_auto_zoom\<close>.\<close>

definition compute_auto_zoom ::
  "BBox_LL \<Rightarrow> GlobalParameters \<Rightarrow> ModelResolution \<Rightarrow> int \<Rightarrow> nat" where
  "compute_auto_zoom bbox params model_res max_tiles =
     auto_zoom_loop bbox params model_res max_tiles [1..<16] 15"

text \<open>\<open>ZoomLevel.new\<close>: a manual zoom bypasses the search, which otherwise runs with a
  budget of 1000 tiles.\<close>

definition ZoomLevel_new ::
  "GlobalParameters \<Rightarrow> BBox_LL \<Rightarrow> nat option \<Rightarrow> ModelResolution \<Rightarrow> nat" where
  "ZoomLevel_new params bbox manual_zoom model_res =
     (case manual_zoom of Some z \<Rightarrow> z
      | None \<Rightarrow> compute_auto_zoom bbox params model_res 1000)"

subsection \<open>terrain_data.py\<close>

record Terrain_ENU =
  e_grid :: grid
  n_grid :: grid
  u_grid :: grid

text \<open>
  The longitude and latitude that belong to pixel \<open>(row, col)\<close>: the fractional tile
  coordinate \<open>(tile_x_min + col / 256, tile_y_min + row / 256)\<close>, taken through the inverse
  of the tile formula. \<open>Terrain_ENU.new\<close> does not compute them pixel by pixel; these two
  functions state what its grids are expected to hold.
\<close>

definition pixel_lon :: "int \<Rightarrow> nat \<Rightarrow> nat \<Rightarrow> real" where
  "pixel_lon tile_x_min z col =
     (real_of_int tile_x_min + real col / 256) / 2 ^ z * 360 - 180"

definition pixel_lat :: "int \<Rightarrow> nat \<Rightarrow> nat \<Rightarrow> real" where
  "pixel_lat tile_y_min z row =
     degrees (arctan (sinh (pi * (1 - 2 * (real_of_int tile_y_min + real row / 256) / 2 ^ z))))"

text \<open>\<open>np.meshgrid(np.arange(height), np.arange(width), indexing="ij")\<close>: the grid of the
  row numbers and the grid of the column numbers, both of shape \<open>(height, width)\<close>.\<close>

definition meshgrid_ij :: "nat \<Rightarrow> nat \<Rightarrow> grid \<times> grid" where
  "meshgrid_ij height width =
     (map (\<lambda>i. replicate width (real i)) [0..<height],
      replicate height (map real [0..<width]))"

text \<open>An arithmetic expression on a whole array acts on every entry.\<close>

definition grid_map :: "(real \<Rightarrow> real) \<Rightarrow> grid \<Rightarrow> grid" where
  "grid_map f g = map (map f) g"

text \<open>\<open>flat.reshape(height, width)\<close>: consecutive runs of \<open>width\<close> entries become the rows;
  numpy raises ValueError when the number of entries is not \<open>height * width\<close>.\<close>

fun rows_of :: "nat \<Rightarrow> nat \<Rightarrow> 'a list \<Rightarrow> 'a list list" where
  "rows_of 0 width flat = []"
| "rows_of (Suc height) width flat = take width flat # rows_of height width (drop width flat)"

definition reshape :: "'a list \<Rightarrow> nat \<Rightarrow> nat \<Rightarrow> exn + 'a list list" where
  "reshape flat height width =
     (if length flat = height * width then Inr (rows_of height width flat) else Inl ValueError)"

text \<open>
  \<open>pymap3d.geodetic2enu\<close> on three flat arrays acts on every position and returns the
  three arrays E, N and U. Arrays of different lengths raise ValueError (the stretching of an
  array of length one is left out).
\<close>

definition geodetic2enu_arrays ::
  "real list \<Rightarrow> real list \<Rightarrow> real list \<Rightarrow> real \<Rightarrow> real \<Rightarrow> real
     \<Rightarrow> exn + real list \<times> real list \<times> real list" where
  "geodetic2enu_arrays lat lon ele lat_0 lon_0 h_0 =
     (if length lat = length lon \<and> length lon = length ele
      then let enu = (\<lambda>k. geodetic2enu (lat ! k) (lon ! k) (ele ! k) lat_0 lon_0 h_0);
               ks = [0..<length lat]
           in Inr (map (\<lambda>k. fst (enu k)) ks, map (\<lambda>k. fst (snd (enu k))) ks,
                   map (\<lambda>k. snd (snd (enu k))) ks)
      else Inl ValueError)"

text \<open>\<open>np.vstack([E, N, U]).T\<close>: row \<open>k\<close> holds position \<open>k\<close> of the three arrays.\<close>

definition vstack_T :: "real list \<Rightarrow> real list \<Rightarrow> real list \<Rightarrow> vec3 list" where
  "vstack_T E N U = map (\<lambda>k. (E ! k, N ! k, U ! k)) [0..<length E]"

text \<open>\<open>LonLatToENU.lonlat_to_enu\<close> on flat arrays, as the source calls it.\<close>

definition lonlat_to_enu_batch ::
  "LonLatToENU \<Rightarrow> real list \<Rightarrow> real list \<Rightarrow> real list \<Rightarrow> exn + vec3 list" where
  "lonlat_to_enu_batch tr lat lon ele =
     bind_exn (geodetic2enu_arrays lat lon ele (lat0 tr) (lon0 tr) (h0 tr))
       (\<lambda>(E, N, U). Inr (vstack_T E N U))"

text \<open>
  \<open>Terrain_ENU.new\<close>: \<open>min\<close> of the tile indices raises on an empty tile list; the pixel
  numbers come from the mesh grid, the tile coordinates, longitudes and latitudes are
  computed on whole grids, the three flattened grids go through the transform in one batch,
  columns 0 and 1 of the result are reshaped into the E and N grids, and the U grid is a copy
  of the heightmap.
\<close>

definition Terrain_ENU_new ::
  "grid \<Rightarrow> RasterTile list \<Rightarrow> nat \<Rightarrow> LonLatToENU \<Rightarrow> exn + Terrain_ENU" where
  "Terrain_ENU_new heightmap tiles z transform =
     (let height = nrows heightmap; width = ncols heightmap in
      bind_exn (py_min (map tile_x tiles)) (\<lambda>tile_x_min.
      bind_exn (py_min (map tile_y tiles)) (\<lambda>tile_y_min.
        case meshgrid_ij height width of (rows, cols) \<Rightarrow>
        let tile_x_grid = grid_map (\<lambda>c. real_of_int tile_x_min + c / 256) cols;
            tile_y_grid = grid_map (\<lambda>r. real_of_int tile_y_min + r / 256) rows;
            n = (2::real) ^ z;
            lon_grid = grid_map (\<lambda>tx. tx / n * 360 - 180) tile_x_grid;
            lat_rad_grid = grid_map (\<lambda>ty. arctan (sinh (pi * (1 - 2 * ty / n)))) tile_y_grid;
            lat_grid = grid_map degrees lat_rad_grid;
            lat_flat = ravel lat_grid;
            lon_flat = ravel lon_grid;
            ele_flat = ravel heightmap
        in bind_exn (lonlat_to_enu_batch transform lat_flat lon_flat ele_flat) (\<lambda>enu_coords.
           bind_exn (reshape (map fst enu_coords) height width) (\<lambda>e_grid'.
           bind_exn (reshape (map (fst \<circ> snd) enu_coords) height width) (\<lambda>n_grid'.
             Inr \<lparr>e_grid = e_grid', n_grid = n_grid', u_grid = heightmap\<rparr>))))))"

text \<open>
  \<open>cKDTree.query\<close> of the external library scipy returns, for one query point, the index of
  a nearest data point in Euclidean distance, and the number of data points when there is
  none. The scan below returns the first index of least squared distance.
\<close>

definition sq_dist :: "real \<times> real \<Rightarrow> real \<times> real \<Rightarrow> real" where
  "sq_dist p q = (fst p - fst q) ^ 2 + (snd p - snd q) ^ 2"

fun nearest_from :: "(real \<times> real) list \<Rightarrow> real \<times> real \<Rightarrow> nat \<Rightarrow> nat \<Rightarrow> real \<Rightarrow> nat" where
  "nearest_from [] q k best d = best"
| "nearest_from (p # ps) q k best d =
     (if sq_dist p q < d then nearest_from ps q (Suc k) k (sq_dist p q)
      else nearest_from ps q (Suc k) best d)"

definition tree_query :: "(real \<times> real) list \<Rightarrow> real \<times> real \<Rightarrow> nat" where
  "tree_query pts q =
     (case pts of [] \<Rightarrow> 0 | p # ps \<Rightarrow> nearest_from ps q 1 0 (sq_dist p q))"

text \<open>\<open>np.column_stack\<close> of two flat arrays raises on unequal lengths.\<close>

definition column_stack :: "real list \<Rightarrow> real list \<Rightarrow> exn + (real \<times> real) list" where
  "column_stack as bs = (if length as = length bs then Inr (zip as bs) else Inl ValueError)"

text \<open>\<open>arr[indices]\<close> with an index array: IndexError as soon as one index is out of range.\<close>

definition take_indices :: "'a list \<Rightarrow> nat list \<Rightarrow> exn + 'a list" where
  "take_indices as ks =
     (if list_all (\<lambda>k. k < length as) ks then Inr (map (\<lambda>k. as ! k) ks) else Inl IndexError)"

text \<open>\<open>Terrain_ENU.sample_at_points\<close>.\<close>

definition sample_at_points :: "Terrain_ENU \<Rightarrow> real list \<Rightarrow> real list \<Rightarrow> exn + real list" where
  "sample_at_points t e_points n_points =
     bind_exn (column_stack (ravel (e_grid t)) (ravel (n_grid t))) (\<lambda>terrain_points.
     bind_exn (column_stack e_points n_points) (\<lambda>query_points.
       let indices = map (tree_query terrain_points) query_points
       in take_indices (ravel (u_grid t)) indices))"

subsection \<open>mesh_builder.py\<close>

text \<open>A \<open>trimesh.Trimesh\<close>: the vertex positions and the faces as index triples.\<close>

record mesh =
  vertices :: "vec3 list"
  faces :: "(nat \<times> nat \<times> nat) list"

text \<open>
  \<open>trimesh.Trimesh(vertices, faces, process=True)\<close> of the external library trimesh merges
  coincident vertices: every position is kept once, and each face index is replaced by the
  index of its position among the kept ones. Winding is left as it is given.
\<close>

fun first_index :: "'a list \<Rightarrow> 'a \<Rightarrow> nat" where
  "first_index [] v = 0"
| "first_index (a # as) v = (if a = v then 0 else Suc (first_index as v))"

definition Trimesh :: "vec3 list \<Rightarrow> (nat \<times> nat \<times> nat) list \<Rightarrow> mesh" where
  "Trimesh vs fs =
     (let kept = rev (remdups (rev vs));
          renumber = (\<lambda>k. first_index kept (vs ! k))
      in \<lparr>vertices = kept,
          faces = map (\<lambda>(a, b, c). (renumber a, renumber b, renumber c)) fs\<rparr>)"

text \<open>
  The arrays handed to \<open>create_terrain_mesh\<close> are references: the caller and the function
  see the same objects. A heap maps the address of an array to its present contents.
\<close>

type_synonym addr = nat

type_synonym heap = "addr \<Rightarrow> grid"

text \<open>The heap before any array is stored: every address holds an array without rows.\<close>

definition empty_heap :: heap where
  "empty_heap = (\<lambda>a. [])"

text \<open>\<open>arr[i, j] = v\<close>.\<close>

definition set2 :: "grid \<Rightarrow> nat \<Rightarrow> nat \<Rightarrow> real \<Rightarrow> exn + grid" where
  "set2 g i j v = (if i < nrows g \<and> j < ncols g \<and> j < length (g ! i)
                   then Inr (g[i := (g ! i)[j := v]]) else Inl IndexError)"

text \<open>The sum of two flat arrays: numpy stretches an array of length one and raises
  ValueError on other unequal lengths.\<close>

definition np_add :: "real list \<Rightarrow> real list \<Rightarrow> exn + real list" where
  "np_add as bs =
     (if length as = length bs then Inr (map2 (+) as bs)
      else if length as = 1 then Inr (map (\<lambda>b. hd as + b) bs)
      else if length bs = 1 then Inr (map (\<lambda>a. a + hd bs) as)
      else Inl ValueError)"

text \<open>The least distance from the position \<open>(te, tn)\<close> to a route sample.\<close>

definition route_min_dist :: "real list \<Rightarrow> real list \<Rightarrow> real \<Rightarrow> real \<Rightarrow> exn + real" where
  "route_min_dist route_e route_n te tn =
     bind_exn (np_add (map (\<lambda>r. (r - te) ^ 2) route_e) (map (\<lambda>r. (r - tn) ^ 2) route_n))
       (\<lambda>squares. py_min (map sqrt squares))"

text \<open>The body of the carving loop at cell \<open>(i, j)\<close>, on the present contents of the three
  terrain arrays; it yields the new contents of \<open>terrain_u\<close>.\<close>

definition carve_cell ::
  "grid \<Rightarrow> grid \<Rightarrow> grid \<Rightarrow> real list \<Rightarrow> real list \<Rightarrow> real \<Rightarrow> real \<Rightarrow> nat \<Rightarrow> nat \<Rightarrow> exn + grid" where
  "carve_cell terrain_e terrain_n terrain_u route_e route_n route_width route_depth i j =
     bind_exn (get2 terrain_e i j) (\<lambda>te.
     bind_exn (get2 terrain_n i j) (\<lambda>tn.
     bind_exn (route_min_dist route_e route_n te tn) (\<lambda>min_dist.
       if min_dist < route_width / 2
       then let factor = 1 - (min_dist / (route_width / 2))
            in bind_exn (get2 terrain_u i j) (\<lambda>tu. set2 terrain_u i j (tu - route_depth * factor))
       else Inr terrain_u)))"

text \<open>The two nested carving loops over the cells still to visit. An exception leaves the
  heap as the cells before it have made it.\<close>

fun carve_loop ::
  "heap \<Rightarrow> addr \<Rightarrow> addr \<Rightarrow> addr \<Rightarrow> real list \<Rightarrow> real list \<Rightarrow> real \<Rightarrow> real \<Rightarrow> (nat \<times> nat) list
     \<Rightarrow> heap \<times> exn option" where
  "carve_loop h pe pn pu route_e route_n route_width route_depth [] = (h, None)"
| "carve_loop h pe pn pu route_e route_n route_width route_depth ((i, j) # cells) =
     (case carve_cell (h pe) (h pn) (h pu) route_e route_n route_width route_depth i j of
        Inl err \<Rightarrow> (h, Some err)
      | Inr terrain_u \<Rightarrow>
          carve_loop (h(pu := terrain_u)) pe pn pu route_e route_n route_width route_depth cells)"

text \<open>The cells in the order of \<open>for i in range(height): for j in range(width)\<close>.\<close>

definition cells_of :: "nat \<Rightarrow> nat \<Rightarrow> (nat \<times> nat) list" where
  "cells_of height width = concat (map (\<lambda>i. map (\<lambda>j. (i, j)) [0..<width]) [0..<height])"

text \<open>The vertices of the top surface, one per cell.\<close>

fun top_vertices :: "grid \<Rightarrow> grid \<Rightarrow> grid \<Rightarrow> (nat \<times> nat) list \<Rightarrow> exn + vec3 list" where
  "top_vertices terrain_e terrain_n terrain_u [] = Inr []"
| "top_vertices terrain_e terrain_n terrain_u ((i, j) # cells) =
     bind_exn (get2 terrain_e i j) (\<lambda>a.
     bind_exn (get2 terrain_n i j) (\<lambda>b.
     bind_exn (get2 terrain_u i j) (\<lambda>c.
     bind_exn (top_vertices terrain_e terrain_n terrain_u cells) (\<lambda>rest.
       Inr ((a, b, c) # rest)))))"

text \<open>The faces of the top surface: two triangles per grid square.\<close>

definition top_faces :: "nat \<Rightarrow> nat \<Rightarrow> (nat \<times> nat \<times> nat) list" where
  "top_faces height width =
     concat (map (\<lambda>i. concat (map (\<lambda>j.
        let idx = i * width + j
        in [(idx, idx + width, idx + 1), (idx + 1, idx + width, idx + width + 1)])
      [0..<width - 1])) [0..<height - 1])"

text \<open>The four loops of the side walls; \<open>nv\<close> is \<open>len(vertices)\<close>.\<close>

definition side_faces :: "nat \<Rightarrow> nat \<Rightarrow> nat \<Rightarrow> (nat \<times> nat \<times> nat) list" where
  "side_faces height width nv =
     concat (map (\<lambda>i.
        let top_idx1 = i * width + (width - 1); top_idx2 = (i + 1) * width + (width - 1);
            bot_idx1 = top_idx1 + nv; bot_idx2 = top_idx2 + nv
        in [(top_idx1, bot_idx1, top_idx2), (top_idx2, bot_idx1, bot_idx2)]) [0..<height - 1])
   @ concat (map (\<lambda>j.
        let top_idx1 = (height - 1) * width + j; top_idx2 = (height - 1) * width + (j + 1);
            bot_idx1 = top_idx1 + nv; bot_idx2 = top_idx2 + nv
        in [(top_idx1, top_idx2, bot_idx1), (top_idx2, bot_idx2, bot_idx1)]) [0..<width - 1])
   @ concat (map (\<lambda>i.
        let top_idx1 = i * width; top_idx2 = (i + 1) * width;
            bot_idx1 = top_idx1 + nv; bot_idx2 = top_idx2 + nv
        in [(top_idx1, top_idx2, bot_idx1), (top_idx2, bot_idx2, bot_idx1)]) [0..<height - 1])
   @ concat (map (\<lambda>j.
        let top_idx1 = j; top_idx2 = j + 1;
            bot_idx1 = top_idx1 + nv; bot_idx2 = top_idx2 + nv
        in [(top_idx1, bot_idx1, top_idx2), (top_idx2, bot_idx1, bot_idx2)]) [0..<width - 1])"

text \<open>
  The part of \<open>create_terrain_mesh\<close> after the carving. An empty list of vertices or faces
  becomes a one-dimensional numpy array, and the two-dimensional slices \<open>base_vertices[:, 2]\<close>
  and \<open>faces[:, ::-1]\<close> of it raise IndexError.
\<close>

definition build_terrain_mesh :: "grid \<Rightarrow> grid \<Rightarrow> grid \<Rightarrow> nat \<Rightarrow> nat \<Rightarrow> real \<Rightarrow> exn + mesh" where
  "build_terrain_mesh terrain_e terrain_n terrain_u height width base_height =
     bind_exn (top_vertices terrain_e terrain_n terrain_u (cells_of height width)) (\<lambda>vs.
       let fs = top_faces height width in
       bind_exn (py_min (ravel terrain_u)) (\<lambda>min_u.
         let base_z = min_u - base_height in
         if vs = [] then Inl IndexError
         else let base_vertices = map (\<lambda>(a, b, c). (a, b, base_z)) vs in
         if fs = [] then Inl IndexError
         else let nv = length vs;
                  bottom_faces = map (\<lambda>(a, b, c). (c + nv, b + nv, a + nv)) fs;
                  all_vertices = vs @ base_vertices;
                  all_faces = fs @ bottom_faces @ side_faces height width nv
              in Inr (Trimesh all_vertices all_faces)))"

text \<open>
  \<open>create_terrain_mesh\<close>, called with the heap and the addresses of \<open>terrain_e\<close>,
  \<open>terrain_n\<close> and \<open>terrain_u\<close>. It returns the heap that the caller sees afterwards,
  and the mesh or the exception raised.
\<close>

definition create_terrain_mesh ::
  "heap \<Rightarrow> addr \<Rightarrow> addr \<Rightarrow> addr \<Rightarrow> real
     \<Rightarrow> real list option \<Rightarrow> real list option \<Rightarrow> real list option \<Rightarrow> real \<Rightarrow> real
     \<Rightarrow> heap \<times> (exn + mesh)" where
  "create_terrain_mesh h pe pn pu base_height route_e route_n route_u route_width route_depth =
     (let height = nrows (h pu); width = ncols (h pu);
          after_carving = (case (route_e, route_n, route_u) of
                      (Some re, Some rn, Some ru) \<Rightarrow>
                        carve_loop h pe pn pu re rn route_width route_depth (cells_of height width)
                    | _ \<Rightarrow> (h, None))
      in case after_carving of
           (h', Some err) \<Rightarrow> (h', Inl err)
         | (h', None) \<Rightarrow>
             (h', build_terrain_mesh (h' pe) (h' pn) (h' pu) height width base_height))"

text \<open>\<open>xs[i]\<close> on a flat array.\<close>

definition get1 :: "'a list \<Rightarrow> nat \<Rightarrow> exn + 'a" where
  "get1 as i = (if i < length as then Inr (as ! i) else Inl IndexError)"

text \<open>The downsampling at the head of \<open>create_route_ribbon_mesh\<close>: one stride, computed
  from \<open>len(route_e)\<close>, slices the three arrays.\<close>

definition ribbon_downsample ::
  "real list \<Rightarrow> real list \<Rightarrow> real list \<Rightarrow> real list \<times> real list \<times> real list" where
  "ribbon_downsample route_e route_n route_u =
     (let step = max 1 (length route_e div 500)
      in (slice_step step route_e, slice_step step route_n, slice_step step route_u))"

text \<open>The horizontal forward direction at sample \<open>i\<close>, before normalisation.\<close>

definition ribbon_forward :: "real list \<Rightarrow> real list \<Rightarrow> nat \<Rightarrow> nat \<Rightarrow> exn + real \<times> real" where
  "ribbon_forward route_e route_n n_points i =
     (if i = 0 then
        bind_exn (get1 route_e 1) (\<lambda>e1. bind_exn (get1 route_e 0) (\<lambda>e0.
        bind_exn (get1 route_n 1) (\<lambda>n1. bind_exn (get1 route_n 0) (\<lambda>n0.
          Inr (e1 - e0, n1 - n0)))))
      else if i = n_points - 1 then
        bind_exn (get1 route_e i) (\<lambda>e1. bind_exn (get1 route_e (i - 1)) (\<lambda>e0.
        bind_exn (get1 route_n i) (\<lambda>n1. bind_exn (get1 route_n (i - 1)) (\<lambda>n0.
          Inr (e1 - e0, n1 - n0)))))
      else
        bind_exn (get1 route_e (i + 1)) (\<lambda>e1. bind_exn (get1 route_e (i - 1)) (\<lambda>e0.
        bind_exn (get1 route_n (i + 1)) (\<lambda>n1. bind_exn (get1 route_n (i - 1)) (\<lambda>n0.
          Inr (e1 - e0, n1 - n0))))))"

text \<open>The four vertices of sample \<open>i\<close>: top-left, top-right, bottom-left, bottom-right.\<close>

definition ribbon_sample_vertices ::
  "real list \<Rightarrow> real list \<Rightarrow> real list \<Rightarrow> real \<Rightarrow> real \<Rightarrow> real \<Rightarrow> nat \<Rightarrow> nat \<Rightarrow> exn + vec3 list" where
  "ribbon_sample_vertices route_e route_n route_u width height thickness n_points i =
     bind_exn (get1 route_e i) (\<lambda>pos_e.
     bind_exn (get1 route_n i) (\<lambda>pos_n.
     bind_exn (get1 route_u i) (\<lambda>ru.
     bind_exn (ribbon_forward route_e route_n n_points i) (\<lambda>(fe, fn).
       let pos_u = ru + height;
           forward_len = sqrt (fe ^ 2 + fn ^ 2 + 0 ^ 2);
           forward = (if forward_len > 0 then (fe / forward_len, fn / forward_len) else (1, 0));
           perp_e = - snd forward;
           perp_n = fst forward;
           top_left = (pos_e - perp_e * (width / 2), pos_n - perp_n * (width / 2), pos_u);
           top_right = (pos_e + perp_e * (width / 2), pos_n + perp_n * (width / 2), pos_u);
           bottom_left = (fst top_left, fst (snd top_left), pos_u - thickness);
           bottom_right = (fst top_right, fst (snd top_right), pos_u - thickness)
       in Inr [top_left, top_right, bottom_left, bottom_right]))))"

fun ribbon_vertices ::
  "real list \<Rightarrow> real list \<Rightarrow> real list \<Rightarrow> real \<Rightarrow> real \<Rightarrow> real \<Rightarrow> nat \<Rightarrow> nat list \<Rightarrow> exn + vec3 list" where
  "ribbon_vertices route_e route_n route_u width height thickness n_points [] = Inr []"
| "ribbon_vertices route_e route_n route_u width height thickness n_points (i # is) =
     bind_exn (ribbon_sample_vertices route_e route_n route_u width height thickness n_points i)
       (\<lambda>four.
     bind_exn (ribbon_vertices route_e route_n route_u width height thickness n_points is)
       (\<lambda>rest. Inr (four @ rest)))"

text \<open>The faces between consecutive samples, then the two end caps.\<close>

definition ribbon_faces :: "nat \<Rightarrow> (nat \<times> nat \<times> nat) list" where
  "ribbon_faces n_points =
     concat (map (\<lambda>i.
        let prev_base = (i - 1) * 4; curr_base = i * 4
        in [(prev_base, curr_base, prev_base + 1), (prev_base + 1, curr_base, curr_base + 1),
            (prev_base + 2, prev_base + 3, curr_base + 2), (prev_base + 3, curr_base + 3, curr_base + 2),
            (prev_base, prev_base + 2, curr_base), (prev_base + 2, curr_base + 2, curr_base),
            (prev_base + 1, curr_base + 1, prev_base + 3), (prev_base + 3, curr_base + 1, curr_base + 3)])
      [1..<n_points])
   @ [(0, 2, 1), (1, 2, 3)]
   @ (let last_base = (n_points - 1) * 4
      in [(last_base, last_base + 1, last_base + 2), (last_base + 1, last_base + 3, last_base + 2)])"

text \<open>\<open>create_route_ribbon_mesh\<close>; \<open>mesh.merge_vertices()\<close> merges once more.\<close>

definition create_route_ribbon_mesh ::
  "real list \<Rightarrow> real list \<Rightarrow> real list \<Rightarrow> real \<Rightarrow> real \<Rightarrow> real \<Rightarrow> exn + mesh" where
  "create_route_ribbon_mesh route_e0 route_n0 route_u0 width height thickness =
     (case ribbon_downsample route_e0 route_n0 route_u0 of (route_e, route_n, route_u) \<Rightarrow>
        let n_points = length route_e in
        if n_points < 2 then Inl ValueError
        else bind_exn (ribbon_vertices route_e route_n route_u width height thickness n_points
                         [0..<n_points]) (\<lambda>vs.
               let m = Trimesh vs (ribbon_faces n_points)
               in Inr (Trimesh (vertices m) (faces m))))"

text \<open>
  \<open>mesh.bounds\<close>: the least and the greatest corner of the vertices that faces use (in
  the meshes built here every vertex is used), and \<open>None\<close> for a mesh without vertices,
  which the subscript \<open>bounds[1]\<close> answers with TypeError.
\<close>

definition mesh_bounds :: "mesh \<Rightarrow> exn + vec3 \<times> vec3" where
  "mesh_bounds m =
     (case vertices m of
        [] \<Rightarrow> Inl TypeError
      | v # vs \<Rightarrow>
          Inr ((fold min (map fst vs) (fst v),
                fold min (map (fst \<circ> snd) vs) (fst (snd v)),
                fold min (map (snd \<circ> snd) vs) (snd (snd v))),
               (fold max (map fst vs) (fst v),
                fold max (map (fst \<circ> snd) vs) (fst (snd v)),
                fold max (map (snd \<circ> snd) vs) (snd (snd v)))))"

text \<open>\<open>mesh.apply_scale(f)\<close>.\<close>

definition apply_scale :: "real \<Rightarrow> mesh \<Rightarrow> mesh" where
  "apply_scale f m = m\<lparr>vertices := map (\<lambda>(a, b, c). (f * a, f * b, f * c)) (vertices m)\<rparr>"

text \<open>
  The scale factor that \<open>scale_mesh_for_printing\<close> computes from the bounds of the mesh.
  A largest dimension of zero makes the numpy division return infinity, which is outside
  the model.
\<close>

definition print_scale_factor :: "mesh \<Rightarrow> real \<Rightarrow> exn + real" where
  "print_scale_factor m target_size_mm =
     bind_exn (mesh_bounds m) (\<lambda>(lo, hi).
       let size_e = fst hi - fst lo;
           size_n = fst (snd hi) - fst (snd lo);
           size_u = snd (snd hi) - snd (snd lo);
           max_size_m = max size_e (max size_n size_u)
       in Inr (target_size_mm / (max_size_m * 1000)))"

definition scale_mesh_for_printing :: "mesh \<Rightarrow> real \<Rightarrow> exn + mesh" where
  "scale_mesh_for_printing m target_size_mm =
     bind_exn (print_scale_factor m target_size_mm) (\<lambda>scale_factor.
       Inr (apply_scale scale_factor m))"

subsection \<open>mesh_generator.py\<close>

text \<open>The class \<open>Route_ENU\<close>; its fields \<open>e\<close>, \<open>n\<close> and \<open>u\<close> are named \<open>enu_e\<close>, \<open>enu_n\<close>
  and \<open>enu_u\<close> here.\<close>

datatype Route_ENU = Route_ENU (enu_e: "real list") (enu_n: "real list") (enu_u: "real list")

record MeshGenerator =
  terrain :: Terrain_ENU
  route_enu :: Route_ENU
  route_terrain_elevation :: "real list"

text \<open>\<open>MeshGenerator.new\<close>.\<close>

definition MeshGenerator_new :: "Terrain_ENU \<Rightarrow> Route_ENU \<Rightarrow> exn + MeshGenerator" where
  "MeshGenerator_new t r =
     bind_exn (sample_at_points t (enu_e r) (enu_n r)) (\<lambda>route_terrain_u.
       Inr \<lparr>terrain = t, route_enu = r, route_terrain_elevation = route_terrain_u\<rparr>)"

text \<open>
  \<open>MeshGenerator.create_terrain_mesh\<close>: the three sliced grids are handed to
  \<open>create_terrain_mesh\<close> without a route, with its default corridor width and depth.
\<close>

definition MeshGenerator_create_terrain_mesh :: "MeshGenerator \<Rightarrow> real \<Rightarrow> nat \<Rightarrow> exn + mesh" where
  "MeshGenerator_create_terrain_mesh mg base_height max_resolution =
     (let height = nrows (e_grid (terrain mg)); width = ncols (e_grid (terrain mg)) in
      if max_resolution = 0 then Inl ZeroDivisionError
      else let mesh_step = max 1 (max height width div max_resolution);
               terrain_e_mesh = slice_step2 mesh_step (e_grid (terrain mg));
               terrain_n_mesh = slice_step2 mesh_step (n_grid (terrain mg));
               terrain_u_mesh = slice_step2 mesh_step (u_grid (terrain mg));
               h = empty_heap(0 := terrain_e_mesh, 1 := terrain_n_mesh, 2 := terrain_u_mesh)
           in snd (create_terrain_mesh h 0 1 2 base_height None None None 2 1))"

text \<open>\<open>MeshGenerator.create_route_mesh\<close>.\<close>

definition MeshGenerator_create_route_mesh ::
  "MeshGenerator \<Rightarrow> real \<Rightarrow> real \<Rightarrow> real \<Rightarrow> real \<Rightarrow> exn + mesh" where
  "MeshGenerator_create_route_mesh mg width height_ratio thickness base_height =
     (let height = base_height * height_ratio
      in create_route_ribbon_mesh (enu_e (route_enu mg)) (enu_n (route_enu mg))
           (route_terrain_elevation mg) width height thickness)"

text \<open>
  The scale factor that \<open>export_meshes\<close> computes for the route mesh, from the least and
  greatest entries of the three terrain grids.
\<close>

definition route_scale_factor :: "Terrain_ENU \<Rightarrow> real \<Rightarrow> exn + real" where
  "route_scale_factor t target_size_mm =
     bind_exn (py_min (ravel (e_grid t))) (\<lambda>e_min.
     bind_exn (py_min (ravel (n_grid t))) (\<lambda>n_min.
     bind_exn (py_min (ravel (u_grid t))) (\<lambda>u_min.
     bind_exn (py_max (ravel (e_grid t))) (\<lambda>e_max.
     bind_exn (py_max (ravel (n_grid t))) (\<lambda>n_max.
     bind_exn (py_max (ravel (u_grid t))) (\<lambda>u_max.
       let terrain_max_m = max (e_max - e_min) (max (n_max - n_min) (u_max - u_min))
       in Inr (target_size_mm / (terrain_max_m * 1000))))))))"

text \<open>\<open>MeshGenerator.export_meshes\<close>: the terrain mesh and the route mesh as they are
  exported.\<close>

definition export_meshes :: "MeshGenerator \<Rightarrow> real \<Rightarrow> real \<Rightarrow> real \<Rightarrow> exn + mesh \<times> mesh" where
  "export_meshes mg target_size_mm base_height route_height_ratio =
     bind_exn (MeshGenerator_create_terrain_mesh mg base_height 500) (\<lambda>terrain_mesh0.
     bind_exn (scale_mesh_for_printing terrain_mesh0 target_size_mm) (\<lambda>terrain_mesh.
     bind_exn (MeshGenerator_create_route_mesh mg 20 route_height_ratio 20 base_height) (\<lambda>route_mesh.
     bind_exn (route_scale_factor (terrain mg) target_size_mm) (\<lambda>scale_factor.
       Inr (terrain_mesh, apply_scale scale_factor route_mesh)))))"

text \<open>
  The bounding box whose corners are the corners of a tile: the inverse tile formula of
  \<open>Terrain_ENU.new\<close> at the pixel offset 0 of the tile and of its south-east neighbour.
\<close>

definition tile_bbox :: "RasterTile \<Rightarrow> BBox_LL" where
  "tile_bbox t =
     \<lparr>min_longitude = pixel_lon (tile_x t) (zoom t) 0,
      min_latitude = pixel_lat (tile_y t + 1) (zoom t) 0,
      max_longitude = pixel_lon (tile_x t + 1) (zoom t) 0,
      max_latitude = pixel_lat (tile_y t) (zoom t) 0\<rparr>"

text \<open>
  The elevation that the carving leaves at a cell of position \<open>(te, tn)\<close> and elevation
  \<open>tu\<close>: the branch of the loop body on the least distance to the route.
\<close>

definition carved :: "real list \<Rightarrow> real list \<Rightarrow> real \<Rightarrow> real \<Rightarrow> real \<Rightarrow> real \<Rightarrow> real \<Rightarrow> real" where
  "carved route_e route_n route_width route_depth te tn tu =
     (case route_min_dist route_e route_n te tn of
        Inl err \<Rightarrow> tu
      | Inr min_dist \<Rightarrow>
          if min_dist < route_width / 2
          then tu - route_depth * (1 - (min_dist / (route_width / 2)))
          else tu)"

text \<open>The update of one cell by the carving.\<close>

definition carve_upd ::
  "grid \<Rightarrow> grid \<Rightarrow> real list \<Rightarrow> real list \<Rightarrow> real \<Rightarrow> real \<Rightarrow> nat \<times> nat \<Rightarrow> grid \<Rightarrow> grid" where
  "carve_upd E N re rn w d c U =
     U[fst c := (U ! fst c)[snd c := carved re rn w d (E ! fst c ! snd c) (N ! fst c ! snd c)
                                        (U ! fst c ! snd c)]]"

subsection \<open>Mesh properties\<close>

text \<open>
  The properties that \<open>create_terrain_mesh\<close> prints from trimesh. \<open>is_watertight\<close>: every
  edge of the face list belongs to exactly two faces. \<open>is_winding_consistent\<close>: the two faces
  of every edge run through it in opposite directions, so that every directed edge occurs
  once and its reverse once. The normal of a face is the cross product of its first two edge
  vectors; it points to the side from which the face is seen counter-clockwise.
\<close>

definition face_edges :: "nat \<times> nat \<times> nat \<Rightarrow> (nat \<times> nat) list" where
  "face_edges f = (case f of (a, b, c) \<Rightarrow> [(a, b), (b, c), (c, a)])"

definition directed_edges :: "mesh \<Rightarrow> (nat \<times> nat) list" where
  "directed_edges m = concat (map face_edges (faces m))"

definition edge_use :: "mesh \<Rightarrow> nat \<times> nat \<Rightarrow> nat" where
  "edge_use m e = count_list (directed_edges m) e + count_list (directed_edges m) (snd e, fst e)"

definition is_watertight :: "mesh \<Rightarrow> bool" where
  "is_watertight m = list_all (\<lambda>e. edge_use m e = 2) (directed_edges m)"

definition is_winding_consistent :: "mesh \<Rightarrow> bool" where
  "is_winding_consistent m =
     list_all (\<lambda>e. count_list (directed_edges m) e = 1
                  \<and> count_list (directed_edges m) (snd e, fst e) = 1)
       (directed_edges m)"

definition vsub :: "vec3 \<Rightarrow> vec3 \<Rightarrow> vec3" where
  "vsub p q = (fst p - fst q, fst (snd p) - fst (snd q), snd (snd p) - snd (snd q))"

definition cross :: "vec3 \<Rightarrow> vec3 \<Rightarrow> vec3" where
  "cross p q =
     (fst (snd p) * snd (snd q) - snd (snd p) * fst (snd q),
      snd (snd p) * fst q - fst p * snd (snd q),
      fst p * fst (snd q) - fst (snd p) * fst q)"

definition face_normal :: "mesh \<Rightarrow> nat \<times> nat \<times> nat \<Rightarrow> vec3" where
  "face_normal m f =
     (case f of (a, b, c) \<Rightarrow>
        cross (vsub (vertices m ! b) (vertices m ! a)) (vsub (vertices m ! c) (vertices m ! a)))"

subsection \<open>Concrete inputs\<close>

text \<open>A terrain of two rows and two columns on the unit square, at elevation 0, in a heap
  with the E, N and U grids at the addresses 0, 1 and 2, and its mesh for a base height of
  10 m.\<close>

definition square_heap :: heap where
  "square_heap = empty_heap(0 := [[0, 1], [0, 1]], 1 := [[1, 1], [0, 0]], 2 := [[0, 0], [0, 0]])"

definition square_mesh :: "exn + mesh" where
  "square_mesh = snd (create_terrain_mesh square_heap 0 1 2 10 None None None 2 1)"

text \<open>A heightmap of one tile whose pixel \<open>(row, col)\<close> holds \<open>256 * row + col\<close>.\<close>

definition ramp_heightmap :: grid where
  "ramp_heightmap = map (\<lambda>row. map (\<lambda>col. real (256 * row + col)) [0..<256]) [0..<256]"

text \<open>A terrain of 1000 m by 1000 m with 980 m of relief, and a generator for it with a
  route of two samples, as \<open>MeshGenerator.new\<close> builds it.\<close>

definition ridge_terrain :: Terrain_ENU where
  "ridge_terrain = \<lparr>e_grid = [[0, 1000], [0, 1000]], n_grid = [[1000, 1000], [0, 0]],
                     u_grid = [[0, 980], [490, 300]]\<rparr>"

definition ridge_generator :: MeshGenerator where
  "ridge_generator = \<lparr>terrain = ridge_terrain, route_enu = Route_ENU [0, 1] [0, 0] [490, 490],
                       route_terrain_elevation = [490, 490]\<rparr>"

section \<open>Properties\<close>

subsection \<open>Slices\<close>

lemma length_slice_step:
  "0 < step \<Longrightarrow> length (slice_step step xs) = (length xs + step - 1) div step"
proof (induction step xs rule: slice_step.induct)
  case (1 step)
  then show ?case by simp
next
  case (2 step x xs)
  show ?case
  proof (cases "length xs < step - 1")
    case True
    with 2 show ?thesis by simp
  next
    case False
    define m where "m = length xs - (step - 1)"
    have len: "length xs = m + (step - 1)" using False by (simp add: m_def)
    from 2 have "length (slice_step step (x # xs)) = Suc ((m + step - 1) div step)"
      by (simp add: m_def)
    also have "\<dots> = (m + step - 1 + step) div step"
      using 2(2) div_add_self2 [of step "m + step - 1"] by linarith
    also have "m + step - 1 + step = length (x # xs) + step - 1"
      using len 2(2) by simp
    finally show ?thesis .
  qed
qed

lemma stride_500_bound:
  "(n + max 1 (n div 500) - 1) div max 1 (n div 500) \<le> (999::nat)"
proof (cases "n < 500")
  case True
  then show ?thesis by simp
next
  case False
  define k where "k = n div 500"
  have k: "1 \<le> k" using False by (simp add: k_def)
  have "n = 500 * k + n mod 500" by (simp add: k_def)
  moreover have "n mod 500 < 500" by simp
  ultimately have "n < 500 * k + 500" by linarith
  then have "n + k - 1 < 1000 * k" using k by simp
  then have "(n + k - 1) div k < 1000" using k
    by (simp add: less_mult_imp_div_less mult.commute)
  moreover have "max 1 (n div 500) = k" using k by (simp add: k_def)
  ultimately show ?thesis by simp
qed

subsection \<open>Arrays\<close>

lemma py_int_of_int [simp]: "py_int (of_int k) = k"
  by (simp add: py_int_def)

lemma py_min_Min:
  assumes "xs \<noteq> []"
  shows "py_min xs = Inr (Min (set xs))"
proof (cases xs)
  case Nil
  then show ?thesis using assms by simp
next
  case (Cons a as)
  then show ?thesis using Min.set_eq_fold [of a as] by (simp add: py_min_def)
qed

lemma ncols_has_shape: "has_shape g h w \<Longrightarrow> 0 < h \<Longrightarrow> ncols g = w"
  by (cases g) (auto simp: has_shape_def ncols_def)

lemma length_ravel: "has_shape g h w \<Longrightarrow> length (ravel g) = h * w"
  by (induction g arbitrary: h) (auto simp: has_shape_def ravel_def)

lemma ravel_nth:
  "has_shape g h w \<Longrightarrow> i < h \<Longrightarrow> j < w \<Longrightarrow> ravel g ! (i * w + j) = g ! i ! j"
proof (induction g arbitrary: h i)
  case Nil
  then show ?case by (simp add: has_shape_def)
next
  case (Cons r g)
  then have r: "length r = w" and g: "has_shape g (h - 1) w"
    by (auto simp: has_shape_def)
  show ?case
  proof (cases i)
    case 0
    then show ?thesis using r Cons.prems(3) by (simp add: ravel_def nth_append)
  next
    case (Suc i')
    then have "i' < h - 1" using Cons.prems(2) by simp
    from Cons.IH [OF g this Cons.prems(3)] show ?thesis
      using Suc r by (simp add: ravel_def nth_append)
  qed
qed

lemma ravel_index:
  assumes "has_shape g h w" and "k < h * w"
  shows "k div w < h \<and> k mod w < w \<and> ravel g ! k = g ! (k div w) ! (k mod w)"
proof -
  have w: "0 < w" using assms(2) by (cases w) auto
  have i: "k div w < h" using assms(2) w by (simp add: less_mult_imp_div_less mult.commute)
  have j: "k mod w < w" using w by simp
  have "ravel g ! (k div w * w + k mod w) = g ! (k div w) ! (k mod w)"
    using assms(1) i j by (rule ravel_nth)
  then show ?thesis using i j by simp
qed

subsection \<open>The route ribbon\<close>

text \<open>
  Claim C8, as the code has it: the stride \<open>max(1, len // 500)\<close> rounds down, so the
  downsampled route of \<open>create_route_ribbon_mesh\<close> keeps at most 999 samples, for every
  input route; the bound of 500 samples that the specification gives does not hold.
\<close>

theorem ribbon_downsample_at_most_999:
  "length (fst (ribbon_downsample route_e route_n route_u)) \<le> 999"
  using stride_500_bound [of "length route_e"]
  by (simp add: ribbon_downsample_def Let_def length_slice_step)

text \<open>A route of 999 samples has stride 1 and keeps all of them.\<close>

theorem ribbon_downsample_counterexample:
  "\<not> length (fst (ribbon_downsample (replicate 999 0) (replicate 999 0) (replicate 999 0)))
       \<le> 500"
  by (simp add: ribbon_downsample_def Let_def length_slice_step)

subsection \<open>Tiles\<close>

lemma tile_x_at_column_edge: "tile_x (lonlat_to_tile (pixel_lon a z 0) lat z) = a"
proof -
  have "(pixel_lon a z 0 + 180) / 360 * 2 ^ z = of_int a"
    by (simp add: pixel_lon_def)
  then show ?thesis by (simp add: lonlat_to_tile_def Let_def)
qed

lemma tiles_to_cover_columns:
  fixes la1 la2 :: real and a :: int and z :: nat
  defines "box \<equiv> \<lparr>min_longitude = pixel_lon a z 0, min_latitude = la1,
                   max_longitude = pixel_lon (a + 1) z 0, max_latitude = la2\<rparr>"
  shows "tile_x ` set (tiles_to_cover box z) = {a, a + 1}"
    and "2 \<le> length (tiles_to_cover box z)"
proof -
  define y1 where "y1 = tile_y (lonlat_to_tile (pixel_lon a z 0) la1 z)"
  define y2 where "y2 = tile_y (lonlat_to_tile (pixel_lon (a + 1) z 0) la2 z)"
  have cols: "[a..a + 1] = [a, a + 1]"
    by (simp add: upto_rec1)
  have cover: "tiles_to_cover box z =
      map (\<lambda>y. RasterTile z a y) [min y1 y2..max y1 y2]
      @ map (\<lambda>y. RasterTile z (a + 1) y) [min y1 y2..max y1 y2]"
    unfolding tiles_to_cover_def Let_def box_def
    by (simp add: tile_x_at_column_edge cols y1_def y2_def)
  have ne: "[min y1 y2..max y1 y2] \<noteq> []" by (simp add: upto_rec1 [of "min y1 y2"])
  then have rows: "set [min y1 y2..max y1 y2] \<noteq> {}" by simp
  show "tile_x ` set (tiles_to_cover box z) = {a, a + 1}"
    using rows by (simp add: cover image_Un image_image image_constant_conv insert_commute
        del: set_upto)
  have "1 \<le> length [min y1 y2..max y1 y2]" using ne by (cases "[min y1 y2..max y1 y2]") auto
  then show "2 \<le> length (tiles_to_cover box z)" by (simp add: cover)
qed

text \<open>
  Claim C9, as the code has it: for every tile \<open>(a, b)\<close>, at every zoom, the covering tile set
  of the bounding box whose corners are the tile's own corners has more than one tile: its
  tiles lie in the two columns \<open>a\<close> and \<open>a + 1\<close>, and both columns occur, because the tile
  formula sends the eastern corner longitude to the next column. This holds whatever the
  two corner latitudes are, so it does not depend on how the row formula rounds at the edge
  of a tile row. The result is never the single tile.
\<close>

theorem tiles_to_cover_tile_corners:
  "tile_x ` set (tiles_to_cover
        \<lparr>min_longitude = pixel_lon a z 0, min_latitude = la1,
         max_longitude = pixel_lon (a + 1) z 0, max_latitude = la2\<rparr> z) = {a, a + 1}
   \<and> 2 \<le> length (tiles_to_cover
        \<lparr>min_longitude = pixel_lon a z 0, min_latitude = la1,
         max_longitude = pixel_lon (a + 1) z 0, max_latitude = la2\<rparr> z)
   \<and> tile_x ` set (tiles_to_cover (tile_bbox (RasterTile z a b)) z) = {a, a + 1}
   \<and> 2 \<le> length (tiles_to_cover (tile_bbox (RasterTile z a b)) z)"
  using tiles_to_cover_columns [of a z la1 la2]
    tiles_to_cover_columns [of a z "pixel_lat (b + 1) z 0" "pixel_lat b z 0"]
  by (simp add: tile_bbox_def)

text \<open>The single tile of zoom 0: its corner box is not covered by the tile alone.\<close>

theorem tiles_to_cover_tile_counterexample:
  "tiles_to_cover (tile_bbox (RasterTile 0 0 0)) 0 \<noteq> [RasterTile 0 0 0]"
proof
  assume "tiles_to_cover (tile_bbox (RasterTile 0 0 0)) 0 = [RasterTile 0 0 0]"
  moreover have "2 \<le> length (tiles_to_cover (tile_bbox (RasterTile 0 0 0)) 0)"
    using tiles_to_cover_columns(2) [of 0 0 "pixel_lat (0 + 1) 0 0" "pixel_lat 0 0 0"]
    by (simp add: tile_bbox_def)
  ultimately show False by simp
qed

subsection \<open>The automatic zoom\<close>

lemma py_int_mono: "a \<le> b \<Longrightarrow> py_int a \<le> py_int b"
proof -
  assume ab: "a \<le> b"
  consider "0 \<le> a" | "b < 0" | "a < 0" "0 \<le> b" by linarith
  then show ?thesis
  proof cases
    case 1
    then show ?thesis using ab floor_mono [OF ab] by (simp add: py_int_def)
  next
    case 2
    then show ?thesis using ab ceiling_mono [OF ab] by (simp add: py_int_def)
  next
    case 3
    have "\<lceil>a\<rceil> \<le> 0" using 3 by (simp add: ceiling_le_zero)
    moreover have "0 \<le> \<lfloor>b\<rfloor>" using 3 by simp
    moreover have "py_int a = \<lceil>a\<rceil>" "py_int b = \<lfloor>b\<rfloor>"
      using 3 by (simp_all add: py_int_def)
    ultimately show ?thesis by linarith
  qed
qed

lemma py_int_double_gap:
  assumes "b \<le> a"
  shows "py_int a - py_int b \<le> py_int (2 * a) - py_int (2 * b)"
proof -
  have m: "py_int (2 * b) \<le> py_int (2 * a)" using assms by (simp add: py_int_mono)
  have fa: "2 * \<lfloor>a\<rfloor> \<le> \<lfloor>2 * a\<rfloor>" "\<lfloor>2 * a\<rfloor> \<le> 2 * \<lfloor>a\<rfloor> + 1" by linarith+
  have fb: "2 * \<lfloor>b\<rfloor> \<le> \<lfloor>2 * b\<rfloor>" "\<lfloor>2 * b\<rfloor> \<le> 2 * \<lfloor>b\<rfloor> + 1" by linarith+
  have ca: "2 * \<lceil>a\<rceil> - 1 \<le> \<lceil>2 * a\<rceil>" "\<lceil>2 * a\<rceil> \<le> 2 * \<lceil>a\<rceil>" by linarith+
  have cb: "2 * \<lceil>b\<rceil> - 1 \<le> \<lceil>2 * b\<rceil>" "\<lceil>2 * b\<rceil> \<le> 2 * \<lceil>b\<rceil>" by linarith+
  consider "0 \<le> b" | "a < 0" | "b < 0" "0 \<le> a" by linarith
  then show ?thesis
  proof cases
    case 1
    then have "0 \<le> a" using assms by simp
    have "\<lfloor>b\<rfloor> \<le> \<lfloor>a\<rfloor>" using assms by (rule floor_mono)
    moreover have "\<lfloor>2 * b\<rfloor> \<le> \<lfloor>2 * a\<rfloor>" using assms by (intro floor_mono) simp
    ultimately show ?thesis using 1 \<open>0 \<le> a\<close> fa fb by (simp add: py_int_def; linarith?)
  next
    case 2
    then have "b < 0" using assms by simp
    have "\<lceil>b\<rceil> \<le> \<lceil>a\<rceil>" using assms by (rule ceiling_mono)
    moreover have "\<lceil>2 * b\<rceil> \<le> \<lceil>2 * a\<rceil>" using assms by (intro ceiling_mono) simp
    ultimately show ?thesis using 2 \<open>b < 0\<close> ca cb by (simp add: py_int_def; linarith?)
  next
    case 3
    have "0 \<le> \<lfloor>a\<rfloor>" using 3 by simp
    moreover have "\<lceil>b\<rceil> \<le> 0" using 3 by (simp add: ceiling_le_zero)
    ultimately show ?thesis using 3 fa cb by (simp add: py_int_def; linarith?)
  qed
qed

lemma py_int_double_abs:
  "\<bar>py_int a - py_int b\<bar> \<le> \<bar>py_int (2 * a) - py_int (2 * b)\<bar>"
proof (cases "b \<le> a")
  case True
  then show ?thesis
    using py_int_double_gap [of b a] py_int_mono [of b a] by linarith
next
  case False
  then have "a \<le> b" by simp
  then show ?thesis
    using py_int_double_gap [of a b] py_int_mono [of a b] by linarith
qed

lemma length_tiles_to_cover:
  "length (tiles_to_cover b z) =
     nat (\<bar>tile_x (lonlat_to_tile (min_longitude b) (min_latitude b) z)
           - tile_x (lonlat_to_tile (max_longitude b) (max_latitude b) z)\<bar> + 1)
   * nat (\<bar>tile_y (lonlat_to_tile (min_longitude b) (min_latitude b) z)
           - tile_y (lonlat_to_tile (max_longitude b) (max_latitude b) z)\<bar> + 1)"
proof -
  have span: "\<And>p q::int. nat (max p q - min p q + 1) = nat (\<bar>p - q\<bar> + 1)"
    by (simp add: max_def min_def)
  show ?thesis
    by (simp add: tiles_to_cover_def Let_def length_concat comp_def sum_list_triv span)
qed

lemma tile_x_double:
  "\<bar>tile_x (lonlat_to_tile lo1 la1 z) - tile_x (lonlat_to_tile lo2 la2 z)\<bar>
     \<le> \<bar>tile_x (lonlat_to_tile lo1 la1 (Suc z)) - tile_x (lonlat_to_tile lo2 la2 (Suc z))\<bar>"
  using py_int_double_abs [of "(lo1 + 180) / 360 * 2 ^ z" "(lo2 + 180) / 360 * 2 ^ z"]
  by (simp add: lonlat_to_tile_def Let_def mult.commute mult.left_commute)

lemma tile_y_double:
  "\<bar>tile_y (lonlat_to_tile lo1 la1 z) - tile_y (lonlat_to_tile lo2 la2 z)\<bar>
     \<le> \<bar>tile_y (lonlat_to_tile lo1 la1 (Suc z)) - tile_y (lonlat_to_tile lo2 la2 (Suc z))\<bar>"
  using py_int_double_abs [of "(1 - arsinh (tan (radians la1)) / pi) / 2 * 2 ^ z"
                              "(1 - arsinh (tan (radians la2)) / pi) / 2 * 2 ^ z"]
  by (simp add: lonlat_to_tile_def Let_def mult.commute mult.left_commute)

lemma num_tiles_Suc: "num_tiles b z \<le> num_tiles b (Suc z)"
  unfolding num_tiles_def length_tiles_to_cover
  using tile_x_double [of "min_longitude b" "min_latitude b" z "max_longitude b" "max_latitude b"]
        tile_y_double [of "min_longitude b" "min_latitude b" z "max_longitude b" "max_latitude b"]
  by (intro iffD2 [OF of_nat_le_iff] mult_le_mono) simp_all

lemma num_tiles_mono: "z \<le> z' \<Longrightarrow> num_tiles b z \<le> num_tiles b z'"
  by (induction rule: dec_induct) (auto intro: order_trans num_tiles_Suc)

lemma auto_zoom_loop_break:
  "\<forall>z\<in>set xs. num_tiles bbox z \<le> max_tiles \<Longrightarrow> num_tiles bbox z0 > max_tiles \<Longrightarrow>
   auto_zoom_loop bbox params res max_tiles (xs @ z0 # ys) opt
     = auto_zoom_loop bbox params res max_tiles xs opt"
  by (induction xs arbitrary: opt) simp_all

lemma auto_zoom_loop_filter:
  "sorted zs \<Longrightarrow>
   auto_zoom_loop bbox params res max_tiles zs opt =
     (let good = filter (\<lambda>z. meters_per_pixel bbox params z \<le> meters res
                              \<and> num_tiles bbox z \<le> max_tiles) zs
      in if good = [] then opt else last good)"
proof (induction zs arbitrary: opt)
  case Nil
  then show ?case by simp
next
  case (Cons z zs)
  then have srt: "sorted zs" and le: "\<forall>z'\<in>set zs. z \<le> z'" by simp_all
  show ?case
  proof (cases "num_tiles bbox z > max_tiles")
    case True
    have "\<forall>z'\<in>set zs. num_tiles bbox z' > max_tiles"
      using True le num_tiles_mono [of z _ bbox] by fastforce
    then have "filter (\<lambda>z. meters_per_pixel bbox params z \<le> meters res
                              \<and> num_tiles bbox z \<le> max_tiles) zs = []"
      by (auto simp: filter_empty_conv)
    then show ?thesis using True by simp
  next
    case False
    then show ?thesis using Cons.IH [OF srt] by (simp add: Let_def)
  qed
qed

text \<open>
  Claim C3: for every bounding box, required resolution and tile budget (1000 in
  \<open>ZoomLevel.new\<close>), the automatic zoom is a zoom from 1 to 15; when some zoom from 1 to 15
  has its meters per pixel at most the required resolution and its covering tile count at
  most the budget, the result is the finest such zoom; when none has, the result is the
  fallback 15; and the scan stops at the first zoom whose tile count exceeds the budget: the
  result is the one of the scan over the zooms before it, and it is the fallback 15 when
  none of those satisfied both conditions. The function has no failing branch.
\<close>

theorem compute_auto_zoom_finest:
  fixes bbox params res max_tiles
  defines "r \<equiv> compute_auto_zoom bbox params res max_tiles"
  defines "ok \<equiv> (\<lambda>z. meters_per_pixel bbox params z \<le> meters res \<and> num_tiles bbox z \<le> max_tiles)"
  shows "(1 \<le> r \<and> r \<le> 15)
       \<and> ((\<exists>z\<in>{1..15}. ok z) \<longrightarrow> ok r \<and> (\<forall>z\<in>{1..15}. ok z \<longrightarrow> z \<le> r))
       \<and> ((\<forall>z\<in>{1..15}. \<not> ok z) \<longrightarrow> r = 15)
       \<and> (\<forall>z0\<in>{1..15}. num_tiles bbox z0 > max_tiles
              \<and> (\<forall>z\<in>{1..<z0}. num_tiles bbox z \<le> max_tiles)
            \<longrightarrow> r = auto_zoom_loop bbox params res max_tiles [1..<z0] 15
                \<and> ((\<forall>z\<in>{1..<z0}. \<not> ok z) \<longrightarrow> r = 15))"
proof -
  define good where "good = filter ok [1..<16]"
  have r: "r = (if good = [] then 15 else last good)"
    unfolding r_def compute_auto_zoom_def good_def ok_def
    by (subst auto_zoom_loop_filter) (simp_all add: Let_def)
  have set_good: "set good = {z\<in>{1..15}. ok z}"
    by (auto simp: good_def)
  have srt: "sorted good" by (simp add: good_def sorted_wrt_filter)
  have range: "1 \<le> r \<and> r \<le> 15"
  proof (cases "good = []")
    case True
    then show ?thesis by (simp add: r)
  next
    case False
    then have "last good \<in> set good" by simp
    then show ?thesis using False by (simp add: r set_good)
  qed
  have finest: "ok r \<and> (\<forall>z\<in>{1..15}. ok z \<longrightarrow> z \<le> r)" if ex: "\<exists>z\<in>{1..15}. ok z"
  proof -
    from ex have ne: "good \<noteq> []" using set_good by fastforce
    then have "last good \<in> set good" by simp
    then have "ok r" using ne by (simp add: r set_good)
    moreover have "z \<le> r" if "z \<in> {1..15}" "ok z" for z
    proof -
      from that have "z \<in> set good" by (simp add: set_good)
      then obtain i where i: "i < length good" "good ! i = z" by (auto simp: in_set_conv_nth)
      have "good ! i \<le> good ! (length good - 1)"
        using srt i(1) by (intro sorted_nth_mono) simp_all
      then show ?thesis using i ne by (simp add: r last_conv_nth)
    qed
    ultimately show ?thesis by blast
  qed
  have fallback: "r = 15" if "\<forall>z\<in>{1..15}. \<not> ok z"
  proof -
    from that have "set good = {}" by (auto simp: set_good)
    then show ?thesis by (simp add: r)
  qed
  have stops: "r = auto_zoom_loop bbox params res max_tiles [1..<z0] 15"
    if "z0 \<in> {1..15}" "num_tiles bbox z0 > max_tiles" "\<forall>z\<in>{1..<z0}. num_tiles bbox z \<le> max_tiles"
    for z0
  proof -
    have "[1..<16] = [1..<z0] @ [z0..<16]"
      using that(1) upt_add_eq_append [of 1 z0 "16 - z0"] by simp
    moreover have "[z0..<16] = z0 # [Suc z0..<16]"
      using that(1) by (simp add: upt_conv_Cons)
    ultimately have "[1..<16] = [1..<z0] @ z0 # [Suc z0..<16]" by simp
    then show ?thesis
      unfolding r_def compute_auto_zoom_def
      using auto_zoom_loop_break [of "[1..<z0]" bbox max_tiles z0 params res "[Suc z0..<16]" 15] that
      by simp
  qed
  have none_before: "r = 15"
    if "z0 \<in> {1..15}" "num_tiles bbox z0 > max_tiles" "\<forall>z\<in>{1..<z0}. \<not> ok z" for z0
  proof (rule fallback, rule ballI)
    fix z :: nat assume z: "z \<in> {1..15}"
    show "\<not> ok z"
    proof (cases "z < z0")
      case True
      then show ?thesis using that(3) z by simp
    next
      case False
      then have "num_tiles bbox z0 \<le> num_tiles bbox z" by (intro num_tiles_mono) simp
      then show ?thesis using that(2) by (simp add: ok_def)
    qed
  qed
  show ?thesis using range finest fallback stops none_before by blast
qed

lemma radians_0 [simp]: "radians 0 = 0"
  by (simp add: radians_def)

lemma num_tiles_equator:
  "num_tiles \<lparr>min_longitude = - 90, min_latitude = 0, max_longitude = 90, max_latitude = 0\<rparr> (Suc (Suc k))
     = 2 ^ (Suc k) + 1"
proof -
  have a: "(2::real) ^ Suc (Suc k) / 4 = of_int (2 ^ k)" by simp
  have b: "3 * (2::real) ^ Suc (Suc k) / 4 = of_int (3 * 2 ^ k)" by simp
  have x: "\<bar>py_int (2 ^ Suc (Suc k) / 4) - py_int (3 * 2 ^ Suc (Suc k) / 4)\<bar> = 2 ^ Suc k"
    unfolding a b py_int_of_int by simp
  show ?thesis
    unfolding num_tiles_def length_tiles_to_cover
    by (simp add: lonlat_to_tile_def Let_def x del: power_Suc)
     
qed

text \<open>A box on the equator from 90 degrees west to 90 degrees east: its tile count is
  \<open>2 ^ (z - 1) + 1\<close>, within the budget of 1000 up to zoom 10 and above it from zoom 11. With
  a required resolution of 100 km the result is zoom 10, where the scan stops; with a required
  resolution of 0 no zoom qualifies and the result is the fallback.\<close>

theorem compute_auto_zoom_finest_witness:
  "compute_auto_zoom
     \<lparr>min_longitude = - 90, min_latitude = 0, max_longitude = 90, max_latitude = 0\<rparr>
     \<lparr>SIZE_MM = 100, PRINT_RESOLUTION_MM = 0.2, EARTH_CIRCUMFERENCE_M = 40075017,
      M_PER_DEG_LAT = 111320\<rparr>
     \<lparr>meters = 100000\<rparr> 1000 = 10
   \<and> compute_auto_zoom
     \<lparr>min_longitude = - 90, min_latitude = 0, max_longitude = 90, max_latitude = 0\<rparr>
     \<lparr>SIZE_MM = 100, PRINT_RESOLUTION_MM = 0.2, EARTH_CIRCUMFERENCE_M = 40075017,
      M_PER_DEG_LAT = 111320\<rparr>
     \<lparr>meters = 100000\<rparr> 1000
     = auto_zoom_loop
     \<lparr>min_longitude = - 90, min_latitude = 0, max_longitude = 90, max_latitude = 0\<rparr>
     \<lparr>SIZE_MM = 100, PRINT_RESOLUTION_MM = 0.2, EARTH_CIRCUMFERENCE_M = 40075017,
      M_PER_DEG_LAT = 111320\<rparr>
     \<lparr>meters = 100000\<rparr> 1000 [1..<11] 15
   \<and> compute_auto_zoom
     \<lparr>min_longitude = - 90, min_latitude = 0, max_longitude = 90, max_latitude = 0\<rparr>
     \<lparr>SIZE_MM = 100, PRINT_RESOLUTION_MM = 0.2, EARTH_CIRCUMFERENCE_M = 40075017,
      M_PER_DEG_LAT = 111320\<rparr>
     \<lparr>meters = 0\<rparr> 1000 = 15"
proof -
  define A where "A = \<lparr>min_longitude = - 90, min_latitude = 0, max_longitude = 90, max_latitude = 0\<rparr>"
  define P where "P = \<lparr>SIZE_MM = 100, PRINT_RESOLUTION_MM = 0.2, EARTH_CIRCUMFERENCE_M = 40075017,
      M_PER_DEG_LAT = 111320\<rparr>"
  have n10: "num_tiles A 10 = 513" and n11: "num_tiles A 11 = 1025"
    using num_tiles_equator [of 8] num_tiles_equator [of 9] by (simp_all add: A_def)
  have mpp: "meters_per_pixel A P z = 40075017 / (256 * 2 ^ z)" for z
    by (simp add: meters_per_pixel_def A_def P_def central_latitude_def)
  have mpp10: "meters_per_pixel A P 10 \<le> 100000" by (simp add: mpp)
  have pos: "0 < meters_per_pixel A P z" for z by (simp add: mpp)
  let ?r = "compute_auto_zoom A P \<lparr>meters = 100000\<rparr> 1000"
  note thm1 = compute_auto_zoom_finest [of A P "\<lparr>meters = 100000\<rparr>" 1000]
  have ex: "\<exists>z\<in>{1..15}. meters_per_pixel A P z \<le> meters \<lparr>meters = 100000\<rparr> \<and> num_tiles A z \<le> 1000"
    using mpp10 n10 by (intro bexI [of _ 10]) simp_all
  from thm1 ex have okr: "num_tiles A ?r \<le> 1000" and ge: "10 \<le> ?r"
    using mpp10 n10 by auto
  have "?r < 11"
  proof (rule ccontr)
    assume "\<not> ?r < 11"
    then have "num_tiles A 11 \<le> num_tiles A ?r" by (intro num_tiles_mono) simp
    then show False using okr n11 by simp
  qed
  then have r10: "?r = 10" using ge by simp
  have "\<forall>z\<in>{1..<11}. num_tiles A z \<le> 1000"
  proof
    fix z :: nat assume "z \<in> {1..<11}"
    then have "num_tiles A z \<le> num_tiles A 10" by (intro num_tiles_mono) simp
    then show "num_tiles A z \<le> 1000" using n10 by simp
  qed
  with thm1 n11 have stop: "?r = auto_zoom_loop A P \<lparr>meters = 100000\<rparr> 1000 [1..<11] 15"
    by simp
  note thm2 = compute_auto_zoom_finest [of A P "\<lparr>meters = 0\<rparr>" 1000]
  have "\<forall>z\<in>{1..15}. \<not> (meters_per_pixel A P z \<le> meters \<lparr>meters = 0\<rparr> \<and> num_tiles A z \<le> 1000)"
    using pos by (simp add: not_le)
  with thm2 have "compute_auto_zoom A P \<lparr>meters = 0\<rparr> 1000 = 15" by blast
  with r10 stop show ?thesis unfolding A_def P_def by simp
qed

subsection \<open>The terrain grid\<close>

lemma has_shape_row: "has_shape g h w \<Longrightarrow> i < h \<Longrightarrow> length (g ! i) = w"
  by (simp add: has_shape_def list_all_length)

lemma has_shape_grid_map: "has_shape g h w \<Longrightarrow> has_shape (grid_map f g) h w"
  by (simp add: has_shape_def grid_map_def list_all_length)

lemma grid_map_nth:
  "has_shape g h w \<Longrightarrow> i < h \<Longrightarrow> j < w \<Longrightarrow> grid_map f g ! i ! j = f (g ! i ! j)"
  using has_shape_row [of g h w i] by (simp add: grid_map_def has_shape_def)

lemma meshgrid_ij_shape:
  "has_shape (fst (meshgrid_ij h w)) h w" "has_shape (snd (meshgrid_ij h w)) h w"
  by (simp_all add: meshgrid_ij_def has_shape_def list_all_length)

lemma meshgrid_ij_nth:
  assumes "i < h" "j < w"
  shows "fst (meshgrid_ij h w) ! i ! j = real i" "snd (meshgrid_ij h w) ! i ! j = real j"
  using assms by (simp_all add: meshgrid_ij_def)

lemma rows_of_shape: "length flat = h * w \<Longrightarrow> has_shape (rows_of h w flat) h w"
proof (induction h arbitrary: flat)
  case 0
  then show ?case by (simp add: has_shape_def)
next
  case (Suc h)
  then have "length (drop w flat) = h * w" by simp
  from Suc.IH [OF this] show ?case using Suc.prems by (simp add: has_shape_def)
qed

lemma rows_of_nth:
  "length flat = h * w \<Longrightarrow> i < h \<Longrightarrow> j < w \<Longrightarrow> rows_of h w flat ! i ! j = flat ! (i * w + j)"
proof (induction h arbitrary: flat i)
  case 0
  then show ?case by simp
next
  case (Suc h)
  have rest: "length (drop w flat) = h * w" using Suc.prems(1) by simp
  show ?case
  proof (cases i)
    case 0
    then show ?thesis using Suc.prems by simp
  next
    case (Suc i')
    then have "i' < h" using Suc.prems(2) by simp
    from Suc.IH [OF rest this Suc.prems(3)]
    have "rows_of h w (drop w flat) ! i' ! j = drop w flat ! (i' * w + j)" .
    moreover have "w + (i' * w + j) \<le> length flat"
    proof -
      have "i' * w + j < i' * w + w" using Suc.prems(3) by simp
      also have "\<dots> = Suc i' * w" by simp
      also have "\<dots> \<le> h * w" using \<open>i' < h\<close> by (intro mult_le_mono1) simp
      finally show ?thesis using Suc.prems(1) by simp
    qed
    ultimately show ?thesis using Suc by (simp add: add.commute add.left_commute)
  qed
qed

lemma cell_index: "i < h \<Longrightarrow> j < w \<Longrightarrow> i * w + j < h * (w::nat)"
proof -
  assume "i < h" "j < w"
  have "i * w + j < i * w + w" using \<open>j < w\<close> by simp
  also have "\<dots> = Suc i * w" by simp
  also have "\<dots> \<le> h * w" using \<open>i < h\<close> by (intro mult_le_mono1) simp
  finally show ?thesis .
qed

lemma Terrain_ENU_new_grids:
  assumes tiles: "tiles \<noteq> []" and hm: "has_shape heightmap h w" and h: "0 < h"
  shows "\<exists>t. Terrain_ENU_new heightmap tiles z tr = Inr t
     \<and> u_grid t = heightmap
     \<and> (\<forall>i<h. \<forall>j<w.
          e_grid t ! i ! j =
            fst (lonlat_to_enu tr (pixel_lat (Min (tile_y ` set tiles)) z i)
                   (pixel_lon (Min (tile_x ` set tiles)) z j) (heightmap ! i ! j))
        \<and> n_grid t ! i ! j =
            fst (snd (lonlat_to_enu tr (pixel_lat (Min (tile_y ` set tiles)) z i)
                   (pixel_lon (Min (tile_x ` set tiles)) z j) (heightmap ! i ! j))))"
proof -
  define xm where "xm = Min (tile_x ` set tiles)"
  define ym where "ym = Min (tile_y ` set tiles)"
  define rows where "rows = fst (meshgrid_ij h w)"
  define cols where "cols = snd (meshgrid_ij h w)"
  define lon_grid where
    "lon_grid = grid_map (\<lambda>tx. tx / 2 ^ z * 360 - 180) (grid_map (\<lambda>c. real_of_int xm + c / 256) cols)"
  define lat_grid where
    "lat_grid = grid_map degrees (grid_map (\<lambda>ty. arctan (sinh (pi * (1 - 2 * ty / 2 ^ z))))
                  (grid_map (\<lambda>r. real_of_int ym + r / 256) rows))"
  define enu where "enu = map (\<lambda>k. lonlat_to_enu tr (ravel lat_grid ! k) (ravel lon_grid ! k)
                                  (ravel heightmap ! k)) [0..<h * w]"
  have nr: "nrows heightmap = h" using hm by (simp add: has_shape_def nrows_def)
  have nc: "ncols heightmap = w" using hm h by (rule ncols_has_shape)
  have xmin: "py_min (map tile_x tiles) = Inr xm" and ymin: "py_min (map tile_y tiles) = Inr ym"
    using tiles by (simp_all add: py_min_Min xm_def ym_def)
  have sh_lon: "has_shape lon_grid h w" and sh_lat: "has_shape lat_grid h w"
    unfolding lon_grid_def lat_grid_def cols_def rows_def
    by (intro has_shape_grid_map meshgrid_ij_shape)+
  have len: "length (ravel lat_grid) = h * w" "length (ravel lon_grid) = h * w"
    "length (ravel heightmap) = h * w"
    using sh_lat sh_lon hm by (simp_all add: length_ravel)
  have batch: "lonlat_to_enu_batch tr (ravel lat_grid) (ravel lon_grid) (ravel heightmap) = Inr enu"
    by (simp add: lonlat_to_enu_batch_def geodetic2enu_arrays_def vstack_T_def bind_exn_def Let_def
        len enu_def lonlat_to_enu_def)
  have lenu: "length enu = h * w" by (simp add: enu_def)
  define t where "t = \<lparr>e_grid = rows_of h w (map fst enu),
                        n_grid = rows_of h w (map (fst \<circ> snd) enu), u_grid = heightmap\<rparr>"
  have mg: "meshgrid_ij h w = (rows, cols)" by (simp add: rows_def cols_def)
  have run: "Terrain_ENU_new heightmap tiles z tr = Inr t"
    unfolding Terrain_ENU_new_def Let_def nr nc xmin ymin mg bind_exn_def
    using batch lenu
    by (simp add: lon_grid_def lat_grid_def reshape_def t_def)
  have sh_rows: "has_shape rows h w" and sh_cols: "has_shape cols h w"
    by (simp_all add: rows_def cols_def meshgrid_ij_shape)
  have lon: "lon_grid ! i ! j = pixel_lon xm z j" if "i < h" "j < w" for i j
  proof -
    let ?f = "\<lambda>c. real_of_int xm + c / 256" and ?g = "\<lambda>tx. tx / 2 ^ z * 360 - 180"
    have "cols ! i ! j = real j" using that by (simp add: cols_def meshgrid_ij_nth)
    moreover have "grid_map ?f cols ! i ! j = ?f (cols ! i ! j)"
      by (rule grid_map_nth [OF sh_cols that])
    moreover have "grid_map ?g (grid_map ?f cols) ! i ! j = ?g (grid_map ?f cols ! i ! j)"
      by (rule grid_map_nth [OF has_shape_grid_map [OF sh_cols] that])
    ultimately show ?thesis by (simp only: lon_grid_def pixel_lon_def)
  qed
  have lat: "lat_grid ! i ! j = pixel_lat ym z i" if "i < h" "j < w" for i j
  proof -
    let ?f = "\<lambda>r. real_of_int ym + r / 256"
      and ?g = "\<lambda>ty. arctan (sinh (pi * (1 - 2 * ty / 2 ^ z)))"
    have "rows ! i ! j = real i" using that by (simp add: rows_def meshgrid_ij_nth)
    moreover have "grid_map ?f rows ! i ! j = ?f (rows ! i ! j)"
      by (rule grid_map_nth [OF sh_rows that])
    moreover have "grid_map ?g (grid_map ?f rows) ! i ! j = ?g (grid_map ?f rows ! i ! j)"
      by (rule grid_map_nth [OF has_shape_grid_map [OF sh_rows] that])
    moreover have "grid_map degrees (grid_map ?g (grid_map ?f rows)) ! i ! j
        = degrees (grid_map ?g (grid_map ?f rows) ! i ! j)"
      by (rule grid_map_nth [OF has_shape_grid_map [OF has_shape_grid_map [OF sh_rows]] that])
    ultimately show ?thesis by (simp only: lat_grid_def pixel_lat_def)
  qed
  have entry: "enu ! (i * w + j) =
      lonlat_to_enu tr (pixel_lat ym z i) (pixel_lon xm z j) (heightmap ! i ! j)"
    if "i < h" "j < w" for i j
    using that cell_index [OF that]
    by (simp add: enu_def ravel_nth [OF sh_lat] ravel_nth [OF sh_lon] ravel_nth [OF hm] lon lat)
  have "e_grid t ! i ! j = fst (lonlat_to_enu tr (pixel_lat ym z i) (pixel_lon xm z j) (heightmap ! i ! j))
      \<and> n_grid t ! i ! j = fst (snd (lonlat_to_enu tr (pixel_lat ym z i) (pixel_lon xm z j) (heightmap ! i ! j)))"
    if "i < h" "j < w" for i j
    using that cell_index [OF that] entry [OF that] lenu
    by (simp add: t_def rows_of_nth)
  then show ?thesis using run unfolding xm_def ym_def by (intro exI [of _ t]) (simp add: t_def)
qed


text \<open>
  Claim C4, as the code has it: for every rectangular heightmap and every index \<open>(i, j)\<close>,
  the E and N entries of the terrain grid, which the code obtains by flattening its grids,
  transforming them in one batch and reshaping the result, are the E and N components of
  the ENU projection of the geodetic position of pixel \<open>(i, j)\<close> (least tile index plus pixel
  fraction, with elevation \<open>Heightmap[i][j]\<close>), and the U entry is \<open>Heightmap[i][j]\<close> itself,
  not the U component of that projection.
\<close>

theorem Terrain_ENU_new_entries:
  assumes "tiles \<noteq> []" and "has_shape heightmap h w" and "i < h" and "j < w"
  shows "\<exists>t. Terrain_ENU_new heightmap tiles z tr = Inr t
     \<and> e_grid t ! i ! j =
          fst (lonlat_to_enu tr (pixel_lat (Min (tile_y ` set tiles)) z i)
                 (pixel_lon (Min (tile_x ` set tiles)) z j) (heightmap ! i ! j))
     \<and> n_grid t ! i ! j =
          fst (snd (lonlat_to_enu tr (pixel_lat (Min (tile_y ` set tiles)) z i)
                 (pixel_lon (Min (tile_x ` set tiles)) z j) (heightmap ! i ! j)))
     \<and> u_grid t ! i ! j = heightmap ! i ! j"
proof -
  have "0 < h" using assms(3) by simp
  from Terrain_ENU_new_grids [OF assms(1,2) this, of z tr] assms(3,4)
  show ?thesis by auto
qed

lemma geodetic2ecef_equator:
  "geodetic2ecef 0 lon alt
     = ((wgs84_a + alt) * cos (radians lon), (wgs84_a + alt) * sin (radians lon), 0)"
proof -
  have "sqrt (wgs84_a ^ 2) = wgs84_a" by (simp add: wgs84_a_def)
  moreover have "wgs84_a ^ 2 / wgs84_a = wgs84_a" by (simp add: power2_eq_square)
  ultimately show ?thesis
    by (simp add: geodetic2ecef_def radians_def Let_def)
qed

lemma lonlat_to_enu_equator:
  "lonlat_to_enu \<lparr>lat0 = 0, lon0 = 0, h0 = h_0\<rparr> 0 lon ele
     = ((wgs84_a + ele) * sin (radians lon), 0,
        (wgs84_a + ele) * cos (radians lon) - (wgs84_a + h_0))"
  by (simp add: lonlat_to_enu_def geodetic2enu_def geodetic2ecef_equator uvw2enu_def)

lemma pixel_row_0: "pixel_lat 1 1 0 = 0"
  by (simp add: pixel_lat_def degrees_def)

lemma pixel_col: "pixel_lon 1 1 0 = 0" "pixel_lon 1 1 64 = 45"
  by (simp_all add: pixel_lon_def)

lemma radians_45: "radians 45 = pi / 4" "radians 0 = 0"
  by (simp_all add: radians_def)

lemma ramp_heightmap_shape: "has_shape ramp_heightmap 256 256"
  by (simp add: ramp_heightmap_def has_shape_def list_all_length)

lemma flat_heightmap_shape: "has_shape (replicate 256 (replicate 256 (100::real))) 256 256"
  by (simp add: has_shape_def list_all_length)

text \<open>A flat heightmap of 100 m on the tile (1, 1) of zoom 1 with the origin at latitude 0,
  longitude 0 and height 50 m: the U entry of pixel (0, 0) is 100, the U component of its
  projection is 50.\<close>

theorem Terrain_ENU_new_counterexample:
  "\<not> isl (Terrain_ENU_new (replicate 256 (replicate 256 100)) [RasterTile 1 1 1] 1
             \<lparr>lat0 = 0, lon0 = 0, h0 = 50\<rparr>)
   \<and> u_grid (projr (Terrain_ENU_new (replicate 256 (replicate 256 100)) [RasterTile 1 1 1] 1
             \<lparr>lat0 = 0, lon0 = 0, h0 = 50\<rparr>)) ! 0 ! 0
     \<noteq> snd (snd (lonlat_to_enu \<lparr>lat0 = 0, lon0 = 0, h0 = 50\<rparr> (pixel_lat 1 1 0) (pixel_lon 1 1 0)
                  (replicate 256 (replicate 256 100) ! 0 ! 0)))"
proof -
  obtain t where t: "Terrain_ENU_new (replicate 256 (replicate 256 100)) [RasterTile 1 1 1] 1
             \<lparr>lat0 = 0, lon0 = 0, h0 = 50\<rparr> = Inr t" "u_grid t = replicate 256 (replicate 256 100)"
    using Terrain_ENU_new_grids [OF _ flat_heightmap_shape, of "[RasterTile 1 1 1]" 1
        "\<lparr>lat0 = 0, lon0 = 0, h0 = 50\<rparr>"]
    by auto
  have "snd (snd (lonlat_to_enu \<lparr>lat0 = 0, lon0 = 0, h0 = 50\<rparr> (pixel_lat 1 1 0) (pixel_lon 1 1 0)
                  (replicate 256 (replicate 256 100) ! 0 ! 0))) = 50"
    using pixel_row_0 pixel_col by (simp add: lonlat_to_enu_equator radians_45)
  then show ?thesis using t by simp
qed

text \<open>
  The heightmap with \<open>256 * row + col\<close> at pixel \<open>(row, col)\<close>, on the same tile and origin.
  Pixel (0, 64), a quarter of the tile to the east on the equator, is at longitude 45: its E
  entry is the earth radius plus its 64 m times the sine of 45 degrees, its N entry is 0.
  Pixel (3, 5) has the entries of row 3 and column 5 with its own elevation 773.
\<close>

theorem Terrain_ENU_new_entries_witness:
  "\<not> isl (Terrain_ENU_new ramp_heightmap [RasterTile 1 1 1] 1 \<lparr>lat0 = 0, lon0 = 0, h0 = 50\<rparr>)
   \<and> e_grid (projr (Terrain_ENU_new ramp_heightmap [RasterTile 1 1 1] 1
                      \<lparr>lat0 = 0, lon0 = 0, h0 = 50\<rparr>)) ! 0 ! 64 = (wgs84_a + 64) * (sqrt 2 / 2)
   \<and> n_grid (projr (Terrain_ENU_new ramp_heightmap [RasterTile 1 1 1] 1
                      \<lparr>lat0 = 0, lon0 = 0, h0 = 50\<rparr>)) ! 0 ! 64 = 0
   \<and> u_grid (projr (Terrain_ENU_new ramp_heightmap [RasterTile 1 1 1] 1
                      \<lparr>lat0 = 0, lon0 = 0, h0 = 50\<rparr>)) ! 0 ! 64 = 64
   \<and> e_grid (projr (Terrain_ENU_new ramp_heightmap [RasterTile 1 1 1] 1
                      \<lparr>lat0 = 0, lon0 = 0, h0 = 50\<rparr>)) ! 3 ! 5
       = fst (lonlat_to_enu \<lparr>lat0 = 0, lon0 = 0, h0 = 50\<rparr> (pixel_lat 1 1 3) (pixel_lon 1 1 5) 773)
   \<and> u_grid (projr (Terrain_ENU_new ramp_heightmap [RasterTile 1 1 1] 1
                      \<lparr>lat0 = 0, lon0 = 0, h0 = 50\<rparr>)) ! 3 ! 5 = 773"
proof -
  let ?tr = "\<lparr>lat0 = 0, lon0 = 0, h0 = 50\<rparr>"
  let ?r = "Terrain_ENU_new ramp_heightmap [RasterTile 1 1 1] 1 ?tr"
  have ne: "[RasterTile 1 1 1] \<noteq> []" by simp
  have v: "ramp_heightmap ! 0 ! 64 = 64" "ramp_heightmap ! 3 ! 5 = 773"
    by (simp_all add: ramp_heightmap_def)
  from Terrain_ENU_new_entries [OF ne ramp_heightmap_shape, of 0 64 1 ?tr]
  obtain t where t: "?r = Inr t"
    "e_grid t ! 0 ! 64 = fst (lonlat_to_enu ?tr (pixel_lat 1 1 0) (pixel_lon 1 1 64) 64)"
    "n_grid t ! 0 ! 64 = fst (snd (lonlat_to_enu ?tr (pixel_lat 1 1 0) (pixel_lon 1 1 64) 64))"
    "u_grid t ! 0 ! 64 = 64"
    by (auto simp: v)
  from Terrain_ENU_new_entries [OF ne ramp_heightmap_shape, of 3 5 1 ?tr] t(1)
  have t': "e_grid t ! 3 ! 5 = fst (lonlat_to_enu ?tr (pixel_lat 1 1 3) (pixel_lon 1 1 5) 773)"
    "u_grid t ! 3 ! 5 = 773"
    by (auto simp: v)
  have "lonlat_to_enu ?tr (pixel_lat 1 1 0) (pixel_lon 1 1 64) 64
      = ((wgs84_a + 64) * (sqrt 2 / 2), 0, (wgs84_a + 64) * (sqrt 2 / 2) - (wgs84_a + 50))"
    using pixel_row_0 pixel_col by (simp add: lonlat_to_enu_equator radians_45 cos_45 sin_45)
  with t t' show ?thesis by simp
qed

subsection \<open>Sampling the terrain\<close>

lemma nearest_from_least:
  assumes "pts = pre @ ps" and "k = length pre" and "best < k" and "d = sq_dist (pts ! best) q"
    and "\<forall>i<k. d \<le> sq_dist (pts ! i) q"
  shows "nearest_from ps q k best d < length pts
       \<and> (\<forall>i<length pts. sq_dist (pts ! nearest_from ps q k best d) q \<le> sq_dist (pts ! i) q)"
  using assms
proof (induction ps arbitrary: pre k best d)
  case Nil
  then show ?case by simp
next
  case (Cons p ps)
  have pk: "pts ! k = p" using Cons.prems(1,2) by simp
  have split: "pts = (pre @ [p]) @ ps" using Cons.prems(1) by simp
  have len: "Suc k = length (pre @ [p])" using Cons.prems(2) by simp
  show ?case
  proof (cases "sq_dist p q < d")
    case True
    have "\<forall>i<Suc k. sq_dist p q \<le> sq_dist (pts ! i) q"
      using True Cons.prems(5) pk by (auto simp: less_Suc_eq)
    then show ?thesis
      using True Cons.IH [OF split len, of k "sq_dist p q"] pk by simp
  next
    case False
    have "\<forall>i<Suc k. d \<le> sq_dist (pts ! i) q"
      using False Cons.prems(5) pk by (auto simp: less_Suc_eq)
    then show ?thesis
      using False Cons.IH [OF split len, of best d] Cons.prems(3,4) by simp
  qed
qed

lemma tree_query_least:
  assumes "pts \<noteq> []"
  shows "tree_query pts q < length pts
       \<and> (\<forall>i<length pts. sq_dist (pts ! tree_query pts q) q \<le> sq_dist (pts ! i) q)"
proof -
  from assms obtain p ps where pts: "pts = p # ps" by (cases pts) auto
  show ?thesis
    using nearest_from_least [of pts "[p]" ps 1 0 "sq_dist p q" q]
    by (simp add: pts tree_query_def)
qed

text \<open>
  Claim C10: on a terrain whose three grids have one shape with at least one row and one
  column, \<open>sample_at_points\<close> returns a value for every list of query points, inside or
  outside the extent of the terrain: one elevation per query point, each the entry of
  \<open>u_grid\<close> at a grid index whose (E, N) position is at least Euclidean distance from the
  query point, hence an element of \<open>u_grid\<close>.
\<close>

theorem sample_at_points_nearest:
  assumes e: "has_shape (e_grid t) h w" and n: "has_shape (n_grid t) h w"
    and u: "has_shape (u_grid t) h w" and h: "0 < h" and w: "0 < w"
    and len: "length e_points = length n_points"
  shows "\<exists>vs. sample_at_points t e_points n_points = Inr vs
     \<and> length vs = length e_points
     \<and> (\<forall>q<length e_points. \<exists>i<h. \<exists>j<w.
           vs ! q = u_grid t ! i ! j
         \<and> (\<forall>i'<h. \<forall>j'<w.
               sqrt (sq_dist (e_grid t ! i ! j, n_grid t ! i ! j) (e_points ! q, n_points ! q))
             \<le> sqrt (sq_dist (e_grid t ! i' ! j', n_grid t ! i' ! j') (e_points ! q, n_points ! q))))
     \<and> set vs \<subseteq> set (ravel (u_grid t))"
proof -
  define pts where "pts = zip (ravel (e_grid t)) (ravel (n_grid t))"
  define qs where "qs = zip e_points n_points"
  define vs where "vs = map (\<lambda>k. ravel (u_grid t) ! k) (map (tree_query pts) qs)"
  have lpts: "length pts = h * w"
    by (simp add: pts_def length_ravel [OF e] length_ravel [OF n])
  then have ne: "pts \<noteq> []" using h w by auto
  have lu: "length (ravel (u_grid t)) = h * w" by (rule length_ravel [OF u])
  have inb: "tree_query pts q < h * w" for q
    using tree_query_least [OF ne, of q] lpts by simp
  have run: "sample_at_points t e_points n_points = Inr vs"
    using inb
    by (simp add: sample_at_points_def column_stack_def bind_exn_def length_ravel [OF e]
        length_ravel [OF n] len take_indices_def Let_def list_all_iff lu vs_def pts_def qs_def)
  have lvs: "length vs = length e_points" by (simp add: vs_def qs_def len)
  have pt: "pts ! (i' * w + j') = (e_grid t ! i' ! j', n_grid t ! i' ! j')"
    if "i' < h" "j' < w" for i' j'
  proof -
    have "i' * w + j' < h * w"
    proof -
      have "i' * w + j' < i' * w + w" using that(2) by simp
      also have "\<dots> = Suc i' * w" by simp
      also have "\<dots> \<le> h * w" using that(1) by (intro mult_le_mono1) simp
      finally show ?thesis .
    qed
    then show ?thesis
      using that by (simp add: pts_def length_ravel [OF e] length_ravel [OF n]
          ravel_nth [OF e] ravel_nth [OF n])
  qed
  have near: "\<exists>i<h. \<exists>j<w. vs ! q = u_grid t ! i ! j
         \<and> (\<forall>i'<h. \<forall>j'<w.
               sqrt (sq_dist (e_grid t ! i ! j, n_grid t ! i ! j) (e_points ! q, n_points ! q))
             \<le> sqrt (sq_dist (e_grid t ! i' ! j', n_grid t ! i' ! j') (e_points ! q, n_points ! q)))"
    if q: "q < length e_points" for q
  proof -
    define k where "k = tree_query pts (qs ! q)"
    have qq: "qs ! q = (e_points ! q, n_points ! q)" using q len by (simp add: qs_def)
    have k: "k < h * w" unfolding k_def by (rule inb)
    note ix = ravel_index [OF u k]
    have vq: "vs ! q = u_grid t ! (k div w) ! (k mod w)"
      using q len ix by (simp add: vs_def qs_def k_def)
    have kk: "k div w * w + k mod w = k" by simp
    have pk: "pts ! k = (e_grid t ! (k div w) ! (k mod w), n_grid t ! (k div w) ! (k mod w))"
      using pt [of "k div w" "k mod w"] ix by (simp only: kk) 
    have least: "sq_dist (pts ! k) (qs ! q) \<le> sq_dist (pts ! (i' * w + j')) (qs ! q)"
      if "i' < h" "j' < w" for i' j'
    proof -
      have "i' * w + j' < length pts"
      proof -
        have "i' * w + j' < i' * w + w" using that(2) by simp
        also have "\<dots> = Suc i' * w" by simp
        also have "\<dots> \<le> h * w" using that(1) by (intro mult_le_mono1) simp
        finally show ?thesis by (simp add: lpts)
      qed
      then show ?thesis using tree_query_least [OF ne, of "qs ! q"] by (simp add: k_def)
    qed
    have "\<forall>i'<h. \<forall>j'<w.
               sqrt (sq_dist (e_grid t ! (k div w) ! (k mod w), n_grid t ! (k div w) ! (k mod w))
                       (e_points ! q, n_points ! q))
             \<le> sqrt (sq_dist (e_grid t ! i' ! j', n_grid t ! i' ! j') (e_points ! q, n_points ! q))"
      using least pk pt qq by simp
    then show ?thesis using ix vq by blast
  qed
  have sub: "set vs \<subseteq> set (ravel (u_grid t))"
    using inb lu by (auto simp: vs_def)
  show ?thesis using run lvs near sub by blast
qed

text \<open>A terrain of two rows and two columns, and two query points outside its extent.\<close>

theorem sample_at_points_nearest_witness:
  "\<not> isl (sample_at_points
              \<lparr>e_grid = [[0, 1], [0, 1]], n_grid = [[1, 1], [0, 0]], u_grid = [[10, 20], [30, 40]]\<rparr>
              [5, - 3] [5, 0.2])
   \<and> length (projr (sample_at_points
              \<lparr>e_grid = [[0, 1], [0, 1]], n_grid = [[1, 1], [0, 0]], u_grid = [[10, 20], [30, 40]]\<rparr>
              [5, - 3] [5, 0.2])) = 2
   \<and> set (projr (sample_at_points
              \<lparr>e_grid = [[0, 1], [0, 1]], n_grid = [[1, 1], [0, 0]], u_grid = [[10, 20], [30, 40]]\<rparr>
              [5, - 3] [5, 0.2])) \<subseteq> {10, 20, 30, 40}"
proof -
  have s1: "has_shape [[0, 1], [0, 1 :: real]] 2 2" and s2: "has_shape [[1, 1], [0, 0 :: real]] 2 2"
    and s3: "has_shape [[10, 20], [30, 40 :: real]] 2 2"
    by (simp_all add: has_shape_def)
  from sample_at_points_nearest [of
      "\<lparr>e_grid = [[0, 1], [0, 1]], n_grid = [[1, 1], [0, 0]], u_grid = [[10, 20], [30, 40]]\<rparr>"
      2 2 "[5, - 3]" "[5, 0.2]"] s1 s2 s3
  obtain vs where "sample_at_points
              \<lparr>e_grid = [[0, 1], [0, 1]], n_grid = [[1, 1], [0, 0]], u_grid = [[10, 20], [30, 40]]\<rparr>
              [5, - 3] [5, 0.2] = Inr vs" "length vs = length [5, - 3 :: real]"
     "set vs \<subseteq> set (ravel [[10, 20], [30, 40 :: real]])"
    by auto
  then show ?thesis by (auto simp: ravel_def)
qed

subsection \<open>Carving the route into the terrain\<close>

lemma route_min_dist_ok:
  "route_e \<noteq> [] \<Longrightarrow> length route_e = length route_n \<Longrightarrow>
   \<exists>d. route_min_dist route_e route_n te tn = Inr d"
  by (cases route_e; cases route_n) (simp_all add: route_min_dist_def np_add_def bind_exn_def py_min_def)

lemma get2_has_shape: "has_shape g h w \<Longrightarrow> i < h \<Longrightarrow> j < w \<Longrightarrow> get2 g i j = Inr (g ! i ! j)"
  using ncols_has_shape [of g h w] has_shape_row [of g h w i]
  by (simp add: get2_def nrows_def has_shape_def)

lemma set2_has_shape:
  "has_shape g h w \<Longrightarrow> i < h \<Longrightarrow> j < w \<Longrightarrow> set2 g i j v = Inr (g[i := (g ! i)[j := v]])"
  using ncols_has_shape [of g h w] has_shape_row [of g h w i]
  by (simp add: set2_def nrows_def has_shape_def)

lemma has_shape_update:
  "has_shape g h w \<Longrightarrow> has_shape (g[i := (g ! i)[j := v]]) h w"
  by (cases "i < length g") (auto simp: has_shape_def list_all_length nth_list_update)

lemma nth_update2:
  "has_shape g h w \<Longrightarrow> a < h \<Longrightarrow> b < w \<Longrightarrow>
   g[a := (g ! a)[b := v]] ! i ! j = (if i = a \<and> j = b then v else g ! i ! j)"
  using has_shape_row [of g h w a]
  by (auto simp: has_shape_def nth_list_update)

lemma carve_cell_has_shape:
  assumes "has_shape E h w" "has_shape N h w" "has_shape U h w" "i < h" "j < w"
    and "route_e \<noteq> []" "length route_e = length route_n"
  shows "carve_cell E N U route_e route_n rw rd i j = Inr (carve_upd E N route_e route_n rw rd (i, j) U)"
proof -
  obtain d where d: "route_min_dist route_e route_n (E ! i ! j) (N ! i ! j) = Inr d"
    using route_min_dist_ok [OF assms(6,7)] by blast
  have same: "U[i := (U ! i)[j := U ! i ! j]] = U" by simp
  show ?thesis
    using assms(4,5) d same
    by (simp add: carve_cell_def bind_exn_def get2_has_shape [OF assms(1)] get2_has_shape [OF assms(2)]
        get2_has_shape [OF assms(3)] set2_has_shape [OF assms(3)] carve_upd_def carved_def Let_def)
qed

lemma carve_upd_shape: "has_shape U h w \<Longrightarrow> has_shape (carve_upd E N re rn rw rd c U) h w"
  by (simp add: carve_upd_def has_shape_update)

lemma carve_loop_fold:
  assumes "has_shape (h pe) H W" "has_shape (h pn) H W" "has_shape (h pu) H W"
    and "pe \<noteq> pu" "pn \<noteq> pu"
    and "\<forall>c\<in>set cs. fst c < H \<and> snd c < W"
    and "route_e \<noteq> []" "length route_e = length route_n"
  shows "carve_loop h pe pn pu route_e route_n rw rd cs =
           (h(pu := fold (carve_upd (h pe) (h pn) route_e route_n rw rd) cs (h pu)), None)"
  using assms(1-6)
proof (induction cs arbitrary: h)
  case Nil
  then show ?case by simp
next
  case (Cons c cs)
  obtain i j where c: "c = (i, j)" by (cases c)
  have ij: "i < H" "j < W" using Cons.prems(6) c by auto
  let ?U = "carve_upd (h pe) (h pn) route_e route_n rw rd (i, j) (h pu)"
  let ?h = "h(pu := ?U)"
  have cell: "carve_cell (h pe) (h pn) (h pu) route_e route_n rw rd i j = Inr ?U"
    using carve_cell_has_shape [OF Cons.prems(1,2,3) ij assms(7,8)] .
  have IH: "carve_loop ?h pe pn pu route_e route_n rw rd cs =
           (?h(pu := fold (carve_upd (?h pe) (?h pn) route_e route_n rw rd) cs (?h pu)), None)"
    using Cons.prems by (intro Cons.IH) (simp_all add: carve_upd_shape)
  show ?case
    using cell IH Cons.prems(4,5) by (simp add: c fun_eq_iff)
qed

lemma fold_carve_upd:
  assumes "has_shape U H W" "distinct cs" "\<forall>c\<in>set cs. fst c < H \<and> snd c < W" "i < H" "j < W"
  shows "fold (carve_upd E N re rn rw rd) cs U ! i ! j =
           (if (i, j) \<in> set cs then carved re rn rw rd (E ! i ! j) (N ! i ! j) (U ! i ! j)
            else U ! i ! j)"
  using assms(1-3)
proof (induction cs arbitrary: U)
  case Nil
  then show ?case by simp
next
  case (Cons c cs)
  obtain a b where c: "c = (a, b)" by (cases c)
  have ab: "a < H" "b < W" using Cons.prems(3) c by auto
  let ?U = "carve_upd E N re rn rw rd c U"
  have sh: "has_shape ?U H W" using Cons.prems(1) by (rule carve_upd_shape)
  have IH: "fold (carve_upd E N re rn rw rd) cs ?U ! i ! j =
           (if (i, j) \<in> set cs then carved re rn rw rd (E ! i ! j) (N ! i ! j) (?U ! i ! j)
            else ?U ! i ! j)"
    using Cons.prems by (intro Cons.IH [OF sh]) simp_all
  have u: "?U ! i ! j = (if i = a \<and> j = b
              then carved re rn rw rd (E ! a ! b) (N ! a ! b) (U ! a ! b) else U ! i ! j)"
    using nth_update2 [OF Cons.prems(1) ab] by (simp add: carve_upd_def c)
  have notin: "(a, b) \<notin> set cs" using Cons.prems(2) c by simp
  show ?case
    using IH u notin by (auto simp: c)
qed

lemma fold_carve_upd_shape:
  "has_shape U H W \<Longrightarrow> has_shape (fold (carve_upd E N re rn rw rd) cs U) H W"
  by (induction cs arbitrary: U) (simp_all add: carve_upd_shape)

lemma set_cells_of: "set (cells_of H W) = {c. fst c < H \<and> snd c < W}"
  by (auto simp: cells_of_def)

lemma distinct_cells_of: "distinct (cells_of H W)"
proof -
  have "cells_of H W = List.product [0..<H] [0..<W]"
    by (simp add: cells_of_def product_concat_map)
  then show ?thesis by (simp add: distinct_product)
qed

lemma carve_loop_cells:
  assumes "has_shape (h pe) H W" "has_shape (h pn) H W" "has_shape (h pu) H W"
    and "pe \<noteq> pu" "pn \<noteq> pu" and "route_e \<noteq> []" "length route_e = length route_n"
  shows "\<exists>U. carve_loop h pe pn pu route_e route_n rw rd (cells_of H W) = (h(pu := U), None)
     \<and> has_shape U H W
     \<and> (\<forall>i<H. \<forall>j<W. U ! i ! j =
            carved route_e route_n rw rd (h pe ! i ! j) (h pn ! i ! j) (h pu ! i ! j))"
proof -
  let ?U = "fold (carve_upd (h pe) (h pn) route_e route_n rw rd) (cells_of H W) (h pu)"
  have run: "carve_loop h pe pn pu route_e route_n rw rd (cells_of H W) = (h(pu := ?U), None)"
    using assms by (intro carve_loop_fold) (auto simp: set_cells_of)
  have sh: "has_shape ?U H W" using assms(3) by (rule fold_carve_upd_shape)
  have "?U ! i ! j = carved route_e route_n rw rd (h pe ! i ! j) (h pn ! i ! j) (h pu ! i ! j)"
    if "i < H" "j < W" for i j
    using fold_carve_upd [OF assms(3) distinct_cells_of _ that, of H W "h pe" "h pn" route_e route_n rw rd]
      that by (simp add: set_cells_of)
  with run sh show ?thesis by blast
qed

lemma create_terrain_mesh_heap:
  assumes "has_shape (h pe) (nrows (h pu)) (ncols (h pu))"
    and "has_shape (h pn) (nrows (h pu)) (ncols (h pu))"
    and "has_shape (h pu) (nrows (h pu)) (ncols (h pu))"
    and "pe \<noteq> pu" "pn \<noteq> pu" and "route_e \<noteq> []" "length route_e = length route_n"
  shows "\<exists>U. fst (create_terrain_mesh h pe pn pu base_height (Some route_e) (Some route_n)
                  (Some route_u) route_width route_depth) = h(pu := U)
     \<and> has_shape U (nrows (h pu)) (ncols (h pu))
     \<and> (\<forall>i<nrows (h pu). \<forall>j<ncols (h pu). U ! i ! j =
            carved route_e route_n route_width route_depth (h pe ! i ! j) (h pn ! i ! j) (h pu ! i ! j))"
proof -
  obtain U where U: "carve_loop h pe pn pu route_e route_n route_width route_depth
        (cells_of (nrows (h pu)) (ncols (h pu))) = (h(pu := U), None)"
     "has_shape U (nrows (h pu)) (ncols (h pu))"
     "\<forall>i<nrows (h pu). \<forall>j<ncols (h pu). U ! i ! j =
            carved route_e route_n route_width route_depth (h pe ! i ! j) (h pn ! i ! j) (h pu ! i ! j)"
    using carve_loop_cells [OF assms] by blast
  have "fst (create_terrain_mesh h pe pn pu base_height (Some route_e) (Some route_n)
                  (Some route_u) route_width route_depth) = h(pu := U)"
    unfolding create_terrain_mesh_def Let_def using U(1) by simp
  with U(2,3) show ?thesis by blast
qed

text \<open>
  Claim C5, as the code has it: the carving writes into the caller's elevation array. When
  the three terrain arrays have the shape of \<open>terrain_u\<close>, the E and N arrays are other
  objects than \<open>terrain_u\<close>, and the route is not empty, then after the call every array
  other than \<open>terrain_u\<close> holds the values it held before, and \<open>terrain_u\<close> holds at every
  cell the carved elevation: lowered by depth times (1 - distance / half width) where the
  least distance to the route is below half the corridor width, and as before elsewhere.
  Without a route nothing is written.
\<close>

theorem create_terrain_mesh_carves_in_place:
  fixes h :: heap and pe pn pu :: addr and base_height route_width route_depth :: real
    and route_e route_n route_u :: "real list"
  defines "H \<equiv> nrows (h pu)" and "W \<equiv> ncols (h pu)"
  defines "h' \<equiv> fst (create_terrain_mesh h pe pn pu base_height (Some route_e) (Some route_n)
                        (Some route_u) route_width route_depth)"
  assumes shapes: "has_shape (h pe) H W" "has_shape (h pn) H W" "has_shape (h pu) H W"
    and distinct: "pe \<noteq> pu" "pn \<noteq> pu"
    and route: "route_e \<noteq> []" "length route_e = length route_n"
  shows "(\<forall>a. a \<noteq> pu \<longrightarrow> h' a = h a)
       \<and> has_shape (h' pu) H W
       \<and> (\<forall>i<H. \<forall>j<W. h' pu ! i ! j =
             carved route_e route_n route_width route_depth (h pe ! i ! j) (h pn ! i ! j) (h pu ! i ! j))
       \<and> fst (create_terrain_mesh h pe pn pu base_height None None None route_width route_depth) = h"
proof -
  obtain U where U: "h' = h(pu := U)" "has_shape U H W"
     "\<forall>i<H. \<forall>j<W. U ! i ! j =
            carved route_e route_n route_width route_depth (h pe ! i ! j) (h pn ! i ! j) (h pu ! i ! j)"
    using create_terrain_mesh_heap [OF shapes [unfolded H_def W_def] distinct route]
    unfolding H_def W_def h'_def by blast
  have none: "fst (create_terrain_mesh h pe pn pu base_height None None None route_width route_depth) = h"
    by (simp add: create_terrain_mesh_def Let_def)
  show ?thesis using U(2,3) none by (simp add: U(1))
qed

lemmas carve_eval = create_terrain_mesh_def Let_def nrows_def ncols_def cells_of_def carve_cell_def
  route_min_dist_def np_add_def py_min_def bind_exn_def get2_def set2_def

lemmas mesh_eval = build_terrain_mesh_def top_faces_def side_faces_def ravel_def Trimesh_def

text \<open>A flat grid of 100 m with a grid point on the route: after the call the caller's
  elevation array is no longer the flat grid.\<close>

theorem create_terrain_mesh_mutates_counterexample:
  "\<not> isl (snd (create_terrain_mesh
          (empty_heap(0 := [[0, 1, 2], [0, 1, 2]], 1 := [[0, 0, 0], [- 1, - 1, - 1]],
                      2 := [[100, 100, 100], [100, 100, 100]]))
          0 1 2 10 (Some [0, - 4]) (Some [0, 0]) (Some [100, 100]) 2 1))
   \<and> fst (create_terrain_mesh
          (empty_heap(0 := [[0, 1, 2], [0, 1, 2]], 1 := [[0, 0, 0], [- 1, - 1, - 1]],
                      2 := [[100, 100, 100], [100, 100, 100]]))
          0 1 2 10 (Some [0, - 4]) (Some [0, 0]) (Some [100, 100]) 2 1) 2
     \<noteq> [[100, 100, 100], [100, 100, 100]]"
  by (simp add: carve_eval mesh_eval)

text \<open>The same call: the E and N arrays are as before, and the grid point on the route is
  at 99 m.\<close>

theorem create_terrain_mesh_carves_in_place_witness:
  "fst (create_terrain_mesh
          (empty_heap(0 := [[0, 1, 2], [0, 1, 2]], 1 := [[0, 0, 0], [- 1, - 1, - 1]],
                      2 := [[100, 100, 100], [100, 100, 100]]))
          0 1 2 10 (Some [0, - 4]) (Some [0, 0]) (Some [100, 100]) 2 1) 0
     = [[0, 1, 2], [0, 1, 2]]
   \<and> fst (create_terrain_mesh
          (empty_heap(0 := [[0, 1, 2], [0, 1, 2]], 1 := [[0, 0, 0], [- 1, - 1, - 1]],
                      2 := [[100, 100, 100], [100, 100, 100]]))
          0 1 2 10 (Some [0, - 4]) (Some [0, 0]) (Some [100, 100]) 2 1) 1
     = [[0, 0, 0], [- 1, - 1, - 1]]
   \<and> fst (create_terrain_mesh
          (empty_heap(0 := [[0, 1, 2], [0, 1, 2]], 1 := [[0, 0, 0], [- 1, - 1, - 1]],
                      2 := [[100, 100, 100], [100, 100, 100]]))
          0 1 2 10 (Some [0, - 4]) (Some [0, 0]) (Some [100, 100]) 2 1) 2 ! 0 ! 0
     = 99"
proof -
  define h :: heap where "h = empty_heap(0 := [[0, 1, 2], [0, 1, 2]], 1 := [[0, 0, 0], [- 1, - 1, - 1]],
                      2 := [[100, 100, 100], [100, 100, 100]])"
  have c: "carved [0, - 4] [0, 0] 2 1 0 0 100 = 99"
    by (simp add: carved_def route_min_dist_def np_add_def py_min_def bind_exn_def)
  have sh: "has_shape (h 0) (nrows (h 2)) (ncols (h 2))" "has_shape (h 1) (nrows (h 2)) (ncols (h 2))"
    "has_shape (h 2) (nrows (h 2)) (ncols (h 2))"
    by (simp_all add: h_def has_shape_def nrows_def ncols_def)
  have ne: "(0::addr) \<noteq> 2" "(1::addr) \<noteq> 2" "[0, - 4 :: real] \<noteq> []"
    "length [0, - 4 :: real] = length [0, 0 :: real]"
    by simp_all
  let ?h' = "fst (create_terrain_mesh h 0 1 2 10 (Some [0, - 4]) (Some [0, 0]) (Some [100, 100]) 2 1)"
  note T = create_terrain_mesh_carves_in_place [OF sh ne, of 10 "[100, 100]" 2 1]
  have dims: "0 < nrows (h 2)" "0 < ncols (h 2)" by (simp_all add: h_def nrows_def ncols_def)
  from T have "?h' 0 = h 0" "?h' 1 = h 1" by simp_all
  moreover from T dims have "?h' 2 ! 0 ! 0 = carved [0, - 4] [0, 0] 2 1 (h 0 ! 0 ! 0) (h 1 ! 0 ! 0) (h 2 ! 0 ! 0)"
    by blast
  moreover have "h 0 = [[0, 1, 2], [0, 1, 2]]" "h 1 = [[0, 0, 0], [- 1, - 1, - 1]]"
    "h 0 ! 0 ! 0 = 0" "h 1 ! 0 ! 0 = 0" "h 2 ! 0 ! 0 = 100"
    by (simp_all add: h_def)
  ultimately show ?thesis
    unfolding h_def [symmetric] using c by simp
qed

text \<open>
  Claim C6, as the code has it: with corridor width 2 m and depth 1 m on a flat grid of
  100 m, a grid point at least distance \<open>d\<close> from the route is left at 100 - (1 - d) when
  \<open>d < 1\<close>, half the corridor width, and at 100 otherwise. A point on the route drops to
  99 m; a point 1 m away is at the corridor edge and is unchanged, as is a point 2 m away;
  the linear blend applies below 1 m, for instance 99.5 m at half a metre.
\<close>

theorem carving_flat_grid:
  fixes h :: heap and pe pn pu :: addr and base_height d :: real
    and route_e route_n route_u :: "real list" and i j :: nat
  defines "H \<equiv> nrows (h pu)" and "W \<equiv> ncols (h pu)"
  defines "h' \<equiv> fst (create_terrain_mesh h pe pn pu base_height (Some route_e) (Some route_n)
                        (Some route_u) 2 1)"
  assumes shapes: "has_shape (h pe) H W" "has_shape (h pn) H W"
    and flat: "h pu = replicate H (replicate W 100)"
    and distinct: "pe \<noteq> pu" "pn \<noteq> pu"
    and route: "route_e \<noteq> []" "length route_e = length route_n"
    and cell: "i < H" "j < W"
    and dist: "route_min_dist route_e route_n (h pe ! i ! j) (h pn ! i ! j) = Inr d"
  shows "h' pu ! i ! j = (if d < 1 then 100 - 1 * (1 - d) else 100)
       \<and> (d = 0 \<longrightarrow> h' pu ! i ! j = 99)
       \<and> (1 \<le> d \<longrightarrow> h' pu ! i ! j = 100)"
proof -
  have shu: "has_shape (h pu) H W"
    by (subst flat) (simp add: has_shape_def list_all_length)
  have u: "h pu ! i ! j = 100" using cell by (subst flat) simp
  obtain U where U: "h' = h(pu := U)"
     "\<forall>i<H. \<forall>j<W. U ! i ! j =
            carved route_e route_n 2 1 (h pe ! i ! j) (h pn ! i ! j) (h pu ! i ! j)"
    using create_terrain_mesh_heap [OF shapes [unfolded H_def W_def] shu [unfolded H_def W_def]
        distinct route]
    unfolding H_def W_def h'_def by blast
  have "h' pu ! i ! j = carved route_e route_n 2 1 (h pe ! i ! j) (h pn ! i ! j) (h pu ! i ! j)"
    using U cell by simp
  then have "h' pu ! i ! j = (if d < 1 then 100 - 1 * (1 - d) else 100)"
    by (simp add: carved_def dist u)
  then show ?thesis by simp
qed

text \<open>The grid point 1 m from the route keeps its 100 m.\<close>

theorem carving_one_metre_counterexample:
  "\<not> fst (create_terrain_mesh
          (empty_heap(0 := [[0, 1, 2], [0, 1, 2]], 1 := [[0, 0, 0], [5, 5, 5]],
                      2 := [[100, 100, 100], [100, 100, 100]]))
          0 1 2 10 (Some [0, 0]) (Some [0, - 3]) (Some [100, 100]) 2 1) 2 ! 0 ! 1 < 100"
  by (simp add: carve_eval)

lemma sqrt_quarter: "sqrt (1 / 4) = 1 / 2"
  by (rule real_sqrt_unique) (simp_all add: power2_eq_square)

text \<open>Grid points on the route and at 0.5 m, 1 m and 2 m from it.\<close>

theorem carving_flat_grid_witness:
  "fst (create_terrain_mesh
          (empty_heap(0 := [[0, 1 / 2, 1, 2], [0, 1 / 2, 1, 2]], 1 := [[0, 0, 0, 0], [5, 5, 5, 5]],
                      2 := [[100, 100, 100, 100], [100, 100, 100, 100]]))
          0 1 2 10 (Some [0, 0]) (Some [0, - 3]) (Some [100, 100]) 2 1) 2 ! 0
     = [99, 99 + 1 / 2, 100, 100]"
proof -
  define h :: heap where "h = empty_heap(0 := [[0, 1 / 2, 1, 2], [0, 1 / 2, 1, 2]],
      1 := [[0, 0, 0, 0], [5, 5, 5, 5]], 2 := [[100, 100, 100, 100], [100, 100, 100, 100]])"
  let ?row = "fst (create_terrain_mesh h 0 1 2 10 (Some [0, 0]) (Some [0, - 3]) (Some [100, 100]) 2 1)
          2 ! 0"
  have sh: "has_shape (h 0) (nrows (h 2)) (ncols (h 2))" "has_shape (h 1) (nrows (h 2)) (ncols (h 2))"
    by (simp_all add: h_def has_shape_def nrows_def ncols_def)
  have flat: "h 2 = replicate (nrows (h 2)) (replicate (ncols (h 2)) 100)"
    by (simp add: h_def nrows_def ncols_def eval_nat_numeral)
  have ne: "(0::addr) \<noteq> 2" "(1::addr) \<noteq> 2" "[0, 0 :: real] \<noteq> []"
    "length [0, 0 :: real] = length [0, - 3 :: real]"
    by simp_all
  have row: "0 < nrows (h 2)" and col: "0 < ncols (h 2)" "1 < ncols (h 2)" "2 < ncols (h 2)"
    "3 < ncols (h 2)"
    by (simp_all add: h_def nrows_def ncols_def)
  have "sqrt (1 / 4) \<le> sqrt (37 / 4)" by (subst real_sqrt_le_iff) simp
  then have far: "min (sqrt (37 / 4)) (1 / 2) = 1 / 2" by (simp add: sqrt_quarter)
  have "sqrt 4 \<le> sqrt 13" by (subst real_sqrt_le_iff) simp
  then have far2: "min (sqrt 13) 2 = 2" by simp
  have d0: "route_min_dist [0, 0] [0, - 3] (h 0 ! 0 ! 0) (h 1 ! 0 ! 0) = Inr 0"
    and d1: "route_min_dist [0, 0] [0, - 3] (h 0 ! 0 ! 1) (h 1 ! 0 ! 1) = Inr (1 / 2)"
    and d2: "route_min_dist [0, 0] [0, - 3] (h 0 ! 0 ! 2) (h 1 ! 0 ! 2) = Inr 1"
    and d3: "route_min_dist [0, 0] [0, - 3] (h 0 ! 0 ! 3) (h 1 ! 0 ! 3) = Inr 2"
    by (simp_all add: h_def route_min_dist_def np_add_def py_min_def bind_exn_def power2_eq_square
        sqrt_quarter far far2)
  have len: "length ?row = 4"
    by (simp add: h_def carve_eval)
  have "?row ! 0 = 99" "?row ! 1 = 99 + 1 / 2" "?row ! 2 = 100" "?row ! 3 = 100"
    using carving_flat_grid [OF sh flat ne row col(1) d0, of 10 "[100, 100]"]
      carving_flat_grid [OF sh flat ne row col(2) d1, of 10 "[100, 100]"]
      carving_flat_grid [OF sh flat ne row col(3) d2, of 10 "[100, 100]"]
      carving_flat_grid [OF sh flat ne row col(4) d3, of 10 "[100, 100]"]
    by simp_all
  with len have "?row = [99, 99 + 1 / 2, 100, 100]"
    by (intro nth_equalityI) (auto simp: less_Suc_eq eval_nat_numeral)
  then show ?thesis unfolding h_def .
qed

subsection \<open>Degenerate grids\<close>

lemma bind_exn_Inl:
  "bind_exn m f = Inl e \<Longrightarrow> m = Inl e \<or> (\<exists>v. m = Inr v \<and> f v = Inl e)"
  by (cases m) (simp_all add: bind_exn_def)

lemma get2_Inl: "get2 g i j = Inl e \<Longrightarrow> e = IndexError"
  by (simp add: get2_def split: if_splits)

lemma set2_Inl: "set2 g i j v = Inl e \<Longrightarrow> e = IndexError"
  by (simp add: set2_def split: if_splits)

lemma py_min_Inl: "py_min xs = Inl e \<Longrightarrow> e = ValueError"
  by (cases xs) (simp_all add: py_min_def)

lemma np_add_Inl: "np_add as bs = Inl e \<Longrightarrow> e = ValueError"
  by (simp add: np_add_def split: if_splits)

lemma route_min_dist_Inl: "route_min_dist re rn te tn = Inl e \<Longrightarrow> e = ValueError"
  unfolding route_min_dist_def
  by (auto dest!: bind_exn_Inl dest: np_add_Inl py_min_Inl)

lemma carve_cell_Inl:
  "carve_cell E N U re rn rw rd i j = Inl e \<Longrightarrow> e = IndexError \<or> e = ValueError"
  unfolding carve_cell_def Let_def
  by (auto dest!: bind_exn_Inl dest: get2_Inl set2_Inl route_min_dist_Inl split: if_splits)

lemma carve_loop_Some:
  "carve_loop h pe pn pu re rn rw rd cs = (h', Some e) \<Longrightarrow> e = IndexError \<or> e = ValueError"
proof (induction cs arbitrary: h)
  case Nil
  then show ?case by simp
next
  case (Cons c cs)
  obtain i j where c: "c = (i, j)" by (cases c)
  show ?case
  proof (cases "carve_cell (h pe) (h pn) (h pu) re rn rw rd i j")
    case (Inl err)
    then show ?thesis using Cons.prems carve_cell_Inl [OF Inl] by (simp add: c)
  next
    case (Inr U)
    with Cons.prems have "carve_loop (h(pu := U)) pe pn pu re rn rw rd cs = (h', Some e)"
      by (simp add: c)
    then show ?thesis by (rule Cons.IH)
  qed
qed

lemma top_vertices_Inl: "top_vertices E N U cs = Inl e \<Longrightarrow> e = IndexError"
proof (induction cs)
  case Nil
  then show ?case by simp
next
  case (Cons c cs)
  obtain i j where c: "c = (i, j)" by (cases c)
  from Cons.prems show ?case
    unfolding c top_vertices.simps
    by (auto dest!: bind_exn_Inl dest: get2_Inl Cons.IH)
qed

lemma top_faces_degenerate: "H < 2 \<or> W < 2 \<Longrightarrow> top_faces H W = []"
proof -
  assume "H < 2 \<or> W < 2"
  then have "H - 1 = 0 \<or> W - 1 = 0" by auto
  then show ?thesis by (auto simp: top_faces_def)
qed

lemma build_terrain_mesh_degenerate:
  assumes "H < 2 \<or> W < 2"
  shows "build_terrain_mesh E N U H W base = Inl IndexError
       \<or> build_terrain_mesh E N U H W base = Inl ValueError"
proof (cases "top_vertices E N U (cells_of H W)")
  case (Inl e)
  then show ?thesis using top_vertices_Inl [OF Inl] by (simp add: build_terrain_mesh_def bind_exn_def)
next
  case vs: (Inr vs)
  show ?thesis
  proof (cases "py_min (ravel U)")
    case (Inl e)
    then show ?thesis using vs py_min_Inl [OF Inl]
      by (simp add: build_terrain_mesh_def bind_exn_def Let_def)
  next
    case (Inr min_u)
    then show ?thesis using vs top_faces_degenerate [OF assms]
      by (simp add: build_terrain_mesh_def bind_exn_def Let_def)
  qed
qed

text \<open>
  For every terrain grid with fewer than 2 rows or fewer than 2 columns the call does not
  return a mesh: there are no faces, and reversing the empty face array raises IndexError,
  unless an earlier step has raised IndexError or ValueError already.
\<close>

lemma create_terrain_mesh_degenerate:
  assumes "nrows (h pu) < 2 \<or> ncols (h pu) < 2"
  shows "snd (create_terrain_mesh h pe pn pu base_height route_e route_n route_u route_width route_depth)
           = Inl IndexError
       \<or> snd (create_terrain_mesh h pe pn pu base_height route_e route_n route_u route_width route_depth)
           = Inl ValueError"
proof -
  define carved_state where "carved_state =
     (case (route_e, route_n, route_u) of
        (Some re, Some rn, Some ru) \<Rightarrow>
          carve_loop h pe pn pu re rn route_width route_depth (cells_of (nrows (h pu)) (ncols (h pu)))
      | _ \<Rightarrow> (h, None))"
  obtain h' err where st: "carved_state = (h', err)" by (cases carved_state)
  have res: "snd (create_terrain_mesh h pe pn pu base_height route_e route_n route_u route_width route_depth)
     = (case err of Some e \<Rightarrow> Inl e
        | None \<Rightarrow> build_terrain_mesh (h' pe) (h' pn) (h' pu) (nrows (h pu)) (ncols (h pu)) base_height)"
    using st unfolding create_terrain_mesh_def Let_def carved_state_def
    by (simp split: option.splits)
  show ?thesis
  proof (cases err)
    case None
    then show ?thesis using res build_terrain_mesh_degenerate [OF assms] by simp
  next
    case (Some e)
    then have "\<exists>re rn. carve_loop h pe pn pu re rn route_width route_depth
                 (cells_of (nrows (h pu)) (ncols (h pu))) = (h', Some e)"
      using st unfolding carved_state_def by (auto split: option.splits)
    then have "e = IndexError \<or> e = ValueError" using carve_loop_Some by blast
    then show ?thesis using res Some by auto
  qed
qed

text \<open>
  Claim C7 on a grid of one row and three columns with a route: no check rejects the grid.
  The caller's elevation array is carved first, and then the call fails with the IndexError
  of numpy for the empty face array. A grid without rows fails with the ValueError of the
  minimum of an empty array, and the same ValueError comes from a grid of two rows and two
  columns whose route arrays have different lengths: there is no error that means a
  degenerate grid. The route ribbon builder, by contrast, rejects a route of one sample by
  its own check before it builds anything.
\<close>

theorem create_terrain_mesh_unguarded:
  "snd (create_terrain_mesh
          (empty_heap(0 := [[0, 1, 2]], 1 := [[0, 0, 0]], 2 := [[100, 100, 100]]))
          0 1 2 10 (Some [0, - 4]) (Some [0, 0]) (Some [100, 100]) 2 1) = Inl IndexError
   \<and> fst (create_terrain_mesh
          (empty_heap(0 := [[0, 1, 2]], 1 := [[0, 0, 0]], 2 := [[100, 100, 100]]))
          0 1 2 10 (Some [0, - 4]) (Some [0, 0]) (Some [100, 100]) 2 1) 2 = [[99, 100, 100]]
   \<and> snd (create_terrain_mesh empty_heap 0 1 2 10 None None None 2 1) = Inl ValueError
   \<and> snd (create_terrain_mesh
          (empty_heap(0 := [[0, 1], [0, 1]], 1 := [[1, 1], [0, 0]], 2 := [[0, 0], [0, 0]]))
          0 1 2 10 (Some [0, 1]) (Some [0, 0, 0]) (Some [0, 0]) 2 1) = Inl ValueError
   \<and> create_route_ribbon_mesh [0] [0] [0] 4 1 (1 / 2) = Inl ValueError"
  by (simp add: carve_eval mesh_eval empty_heap_def create_route_ribbon_mesh_def
      ribbon_downsample_def)

subsection \<open>The terrain mesh on the unit square\<close>

text \<open>
  On every grid with at least two rows and two columns, the second top face of the last
  square of the first row and the first wall face of the column \<open>j = width - 1\<close> both run
  through the directed edge from vertex \<open>2 * width - 1\<close> to vertex \<open>width - 1\<close>: the wall
  is wound the same way round as the top surface it meets.
\<close>

lemma wall_repeats_top_edge:
  assumes "2 \<le> H" and "2 \<le> W"
  shows "(W - 1, 2 * W - 2, 2 * W - 1) \<in> set (top_faces H W)"
    and "(W - 1, W - 1 + nv, 2 * W - 1) \<in> set (side_faces H W nv)"
    and "(2 * W - 1, W - 1) \<in> set (face_edges (W - 1, 2 * W - 2, 2 * W - 1))"
    and "(2 * W - 1, W - 1) \<in> set (face_edges (W - 1, W - 1 + nv, 2 * W - 1))"
proof -
  have row: "0 \<in> set [0..<H - 1]" and col: "W - 2 \<in> set [0..<W - 1]"
    using assms by auto
  have idx: "0 * W + (W - 2) + 1 = W - 1" "0 * W + (W - 2) + W = 2 * W - 2"
    "0 * W + (W - 2) + W + 1 = 2 * W - 1"
    using assms by auto
  have "\<exists>i\<in>set [0..<H - 1]. \<exists>j\<in>set [0..<W - 1].
          (W - 1, 2 * W - 2, 2 * W - 1) = (i * W + j + 1, i * W + j + W, i * W + j + W + 1)"
    using row col idx by (intro bexI [of _ 0] bexI [of _ "W - 2"]) simp_all
  then show "(W - 1, 2 * W - 2, 2 * W - 1) \<in> set (top_faces H W)"
    unfolding top_faces_def Let_def by auto
  have idx2: "0 * W + (W - 1) = W - 1" "(0 + 1) * W + (W - 1) = 2 * W - 1"
    using assms by auto
  have "\<exists>i\<in>set [0..<H - 1].
          (W - 1, W - 1 + nv, 2 * W - 1) = (i * W + (W - 1), i * W + (W - 1) + nv, (i + 1) * W + (W - 1))"
    using row idx2 by (intro bexI [of _ 0]) simp_all
  then show "(W - 1, W - 1 + nv, 2 * W - 1) \<in> set (side_faces H W nv)"
    unfolding side_faces_def Let_def by auto
  show "(2 * W - 1, W - 1) \<in> set (face_edges (W - 1, 2 * W - 2, 2 * W - 1))"
    and "(2 * W - 1, W - 1) \<in> set (face_edges (W - 1, W - 1 + nv, 2 * W - 1))"
    by (simp_all add: face_edges_def)
qed

lemma square_mesh_value:
  "square_mesh
     = Inr \<lparr>vertices = [(0, 1, 0), (1, 1, 0), (0, 0, 0), (1, 0, 0),
                          (0, 1, - 10), (1, 1, - 10), (0, 0, - 10), (1, 0, - 10)],
            faces = [(0, 2, 1), (1, 2, 3), (5, 6, 4), (7, 6, 5), (1, 5, 3), (3, 5, 7),
                     (2, 3, 6), (3, 7, 6), (0, 2, 4), (2, 6, 4), (0, 4, 1), (1, 4, 5)]\<rparr>"
  by (simp add: square_mesh_def square_heap_def create_terrain_mesh_def Let_def nrows_def ncols_def build_terrain_mesh_def
      cells_of_def bind_exn_def get2_def top_faces_def side_faces_def py_min_def ravel_def
      Trimesh_def)

text \<open>
  Claim C1 on the terrain of two rows and two columns on the unit square: the mesh is
  returned, and every edge belongs to exactly two faces, but the winding is not consistent.
  The directed edge from vertex 3 to vertex 1 is run through twice, by a top face and by a
  wall face. The normals of the top face and of the bottom face point up and down, out of
  the solid, and the normal of the wall face at the greatest E points to smaller E, into
  the solid.
\<close>

theorem terrain_mesh_winding_inconsistent:
  "\<not> isl square_mesh
   \<and> is_watertight (projr square_mesh)
   \<and> \<not> is_winding_consistent (projr square_mesh)
   \<and> count_list (directed_edges (projr square_mesh)) (3, 1) = 2
   \<and> face_normal (projr square_mesh) (0, 2, 1) = (0, 0, 1)
   \<and> face_normal (projr square_mesh) (5, 6, 4) = (0, 0, - 1)
   \<and> face_normal (projr square_mesh) (1, 5, 3) = (- 10, 0, 0)"
  by (simp add: square_mesh_value is_watertight_def is_winding_consistent_def edge_use_def
      directed_edges_def face_edges_def face_normal_def cross_def vsub_def)

subsection \<open>The scale factors of the export\<close>

lemma ridge_new: "MeshGenerator_new ridge_terrain (Route_ENU [0, 1] [0, 0] [490, 490]) = Inr ridge_generator"
  by (simp add: MeshGenerator_new_def ridge_generator_def ridge_terrain_def sample_at_points_def
      column_stack_def bind_exn_def ravel_def tree_query_def sq_dist_def take_indices_def)

lemma ridge_terrain_mesh:
  "MeshGenerator_create_terrain_mesh ridge_generator 50 500 =
     Inr \<lparr>vertices = [(0, 1000, 0), (1000, 1000, 980), (0, 0, 490), (1000, 0, 300),
                        (0, 1000, - 50), (1000, 1000, - 50), (0, 0, - 50), (1000, 0, - 50)],
          faces = [(0, 2, 1), (1, 2, 3), (5, 6, 4), (7, 6, 5), (1, 5, 3), (3, 5, 7),
                     (2, 3, 6), (3, 7, 6), (0, 2, 4), (2, 6, 4), (0, 4, 1), (1, 4, 5)]\<rparr>"
  by (simp add: ridge_generator_def ridge_terrain_def MeshGenerator_create_terrain_mesh_def
      slice_step2_def create_terrain_mesh_def Let_def nrows_def ncols_def build_terrain_mesh_def
      cells_of_def bind_exn_def get2_def top_faces_def side_faces_def py_min_def ravel_def
      Trimesh_def)

lemma ridge_route_mesh:
  "\<not> isl (MeshGenerator_create_route_mesh ridge_generator 20 0.2 20 50)"
  by (simp add: ridge_generator_def MeshGenerator_create_route_mesh_def create_route_ribbon_mesh_def
      ribbon_downsample_def Let_def bind_exn_def ribbon_sample_vertices_def ribbon_forward_def get1_def
      upt_rec)

text \<open>
  Claim C2 on the terrain with 980 m of relief and a base height of 50 m: the terrain mesh is
  1030 m high and is scaled by 100 / (1030 * 1000), the factor of its own bounds, while the
  route mesh is scaled by 100 / (1000 * 1000), computed anew from the terrain grids, which
  are 1000 m wide: the two exported meshes do not have the same scale.
\<close>

theorem export_scale_factors_differ:
  "print_scale_factor (projr (MeshGenerator_create_terrain_mesh ridge_generator 50 500)) 100
     = Inr (1 / 10300)
   \<and> route_scale_factor (terrain ridge_generator) 100 = Inr (1 / 10000)
   \<and> export_meshes ridge_generator 100 50 0.2
     = Inr (apply_scale (1 / 10300) (projr (MeshGenerator_create_terrain_mesh ridge_generator 50 500)),
            apply_scale (1 / 10000) (projr (MeshGenerator_create_route_mesh ridge_generator 20 0.2 20 50)))"
proof -
  have f1: "print_scale_factor (projr (MeshGenerator_create_terrain_mesh ridge_generator 50 500)) 100
     = Inr (1 / 10300)"
    by (simp add: ridge_terrain_mesh print_scale_factor_def mesh_bounds_def bind_exn_def)
  have f2: "route_scale_factor (terrain ridge_generator) 100 = Inr (1 / 10000)"
    by (simp add: ridge_generator_def ridge_terrain_def route_scale_factor_def bind_exn_def
        py_min_def py_max_def ravel_def)
  obtain rm where rm: "MeshGenerator_create_route_mesh ridge_generator 20 0.2 20 50 = Inr rm"
    using ridge_route_mesh by (cases "MeshGenerator_create_route_mesh ridge_generator 20 0.2 20 50") auto
  obtain tm where tm: "MeshGenerator_create_terrain_mesh ridge_generator 50 500 = Inr tm"
    using ridge_terrain_mesh by simp
  have f1': "print_scale_factor tm 100 = Inr (1 / 10300)"
    using f1 by (simp add: tm)
  have "export_meshes ridge_generator 100 50 0.2
     = Inr (apply_scale (1 / 10300) (projr (MeshGenerator_create_terrain_mesh ridge_generator 50 500)),
            apply_scale (1 / 10000) (projr (MeshGenerator_create_route_mesh ridge_generator 20 0.2 20 50)))"
    using rm by (simp add: export_meshes_def scale_mesh_for_printing_def tm f1' f2 bind_exn_def)
  with f1 f2 show ?thesis by simp
qed

end
